theory Spec2Isabelle
  imports Complex_Main
begin

section \<open>Values shared by all operations of hdbscanAlgorithm\<close>

text \<open>
  The engine is written in C++. Its \<^verbatim>\<open>double\<close> values are only copied and compared by
  the operations below (the one exception is the outlier score), so they are modelled as
  \<^typ>\<open>real\<close>; \<^verbatim>\<open>std::numeric_limits<double>::max()\<close> is the constant \<open>DBL_MAX\<close>.
  An \<^verbatim>\<open>int\<close> that the code may make negative is an \<^typ>\<open>int\<close>, a loop counter that
  starts at 0 and counts up is a \<^typ>\<open>nat\<close>.

  Every operation that C++ leaves undefined (an index outside a vector, a dereference of
  \<^verbatim>\<open>end()\<close>, leaving a value-returning function without \<^verbatim>\<open>return\<close>) or answers with
  an exception (a vector of negative size) is a branch of the model that returns an error.
\<close>

datatype error =
    OutOfRange      \<comment> \<open>\<^verbatim>\<open>v[i]\<close> with \<open>i\<close> outside \<open>0 .. size - 1\<close>\<close>
  | BadLength       \<comment> \<open>\<^verbatim>\<open>std::vector<T> v(n)\<close> with negative \<open>n\<close>\<close>
  | PastTheEnd      \<comment> \<open>dereference of the iterator \<^verbatim>\<open>end()\<close>\<close>
  | NoReturnValue   \<comment> \<open>control reaches the end of a function that returns a value\<close>
  | BadPointer      \<comment> \<open>dereference of a pointer to no live object\<close>

definition DBL_MAX :: real where
  "DBL_MAX = 2 ^ 1024 - 2 ^ 971"

definition in_range :: "'a list \<Rightarrow> int \<Rightarrow> bool" where
  "in_range v i = (0 \<le> i \<and> i < int (length v))"

definition vec_get :: "'a list \<Rightarrow> int \<Rightarrow> error + 'a" where
  "vec_get v i = (if in_range v i then Inr (v ! nat i) else Inl OutOfRange)"

definition vec_set :: "'a list \<Rightarrow> int \<Rightarrow> 'a \<Rightarrow> error + 'a list" where
  "vec_set v i x = (if in_range v i then Inr (v[nat i := x]) else Inl OutOfRange)"

section \<open>The cluster class\<close>

text \<open>
  Modelled from the spec: \<^verbatim>\<open>cluster.hpp\<close> is not among the sources. The record holds the
  fields the specification's data model lists. A \<^verbatim>\<open>cluster *\<close> is the label of the
  pointed-to cluster (labels are unique), and the objects such pointers refer to live in a
  store from labels to clusters.
\<close>

datatype stability = Finite real | Infinite

record cluster =
  Label :: int
  Parent :: "int option"
  HasChildren :: bool
  BirthLevel :: real
  DeathLevel :: real
  NumPoints :: int
  Stability :: stability
  PropagatedStability :: stability
  PropagatedLowestChildDeathLevel :: real
  NumConstraintsSatisfied :: int
  PropagatedNumConstraintsSatisfied :: int
  VirtualChildConstraintsSatisfied :: int
  VirtualChildCluster :: "int list"

type_synonym store = "int \<Rightarrow> cluster option"

fun stability_add :: "stability \<Rightarrow> real \<Rightarrow> stability" where
  "stability_add (Finite s) x = Finite (s + x)"
| "stability_add Infinite x = Infinite"

text \<open>
  Modelled from the spec: the constructor \<^verbatim>\<open>cluster(label, parent, birthLevel, numPoints)\<close>
  makes a node "whose parent is the given parent, birth level = the given edge weight,
  initial size = |points|".
\<close>

definition new_cluster :: "int \<Rightarrow> cluster \<Rightarrow> real \<Rightarrow> nat \<Rightarrow> cluster" where
  "new_cluster label parent birthLevel numPoints =
     \<lparr> Label = label, Parent = Some (Label parent), HasChildren = False,
       BirthLevel = birthLevel, DeathLevel = 0, NumPoints = int numPoints,
       Stability = Finite 0, PropagatedStability = Finite 0,
       PropagatedLowestChildDeathLevel = DBL_MAX,
       NumConstraintsSatisfied = 0, PropagatedNumConstraintsSatisfied = 0,
       VirtualChildConstraintsSatisfied = 0, VirtualChildCluster = [] \<rparr>"

text \<open>
  Modelled from the spec: \<^verbatim>\<open>detachPoints\<close> tells a cluster that it lost points at an edge
  weight: its stability grows by \<open>pointsRemoved * (1/deathEdgeWeight - 1/birthEdgeWeight)\<close>
  (and is infinite when the birth level is 0), and the death level is fixed once no point is
  left.
\<close>

definition detachPoints :: "cluster \<Rightarrow> nat \<Rightarrow> real \<Rightarrow> cluster" where
  "detachPoints c numPoints level =
     (let left = NumPoints c - int numPoints
      in c\<lparr> NumPoints := left,
            Stability := (if BirthLevel c = 0 then Infinite
                          else stability_add (Stability c)
                                 (real numPoints * (1 / level - 1 / BirthLevel c))),
            DeathLevel := (if left = 0 then level else DeathLevel c) \<rparr>)"

text \<open>Modelled from the spec: the virtual child cluster is the set of points that fell to noise.\<close>

definition addPointsToVirtualChildCluster :: "cluster \<Rightarrow> int list \<Rightarrow> cluster" where
  "addPointsToVirtualChildCluster c points =
     c\<lparr> VirtualChildCluster := VirtualChildCluster c @ points \<rparr>"

definition virtualChildClusterConstraintsPoint :: "cluster \<Rightarrow> int \<Rightarrow> bool" where
  "virtualChildClusterConstraintsPoint c point = (point \<in> set (VirtualChildCluster c))"

definition addVirtualChildConstraintsSatisfied :: "cluster \<Rightarrow> int \<Rightarrow> cluster" where
  "addVirtualChildConstraintsSatisfied c n =
     c\<lparr> VirtualChildConstraintsSatisfied := VirtualChildConstraintsSatisfied c + n \<rparr>"

definition addConstraintsSatisfied :: "cluster \<Rightarrow> int \<Rightarrow> cluster" where
  "addConstraintsSatisfied c n = c\<lparr> NumConstraintsSatisfied := NumConstraintsSatisfied c + n \<rparr>"

definition releaseVirtualChildCluster :: "cluster \<Rightarrow> cluster" where
  "releaseVirtualChildCluster c = c\<lparr> VirtualChildCluster := [] \<rparr>"

section \<open>createNewCluster\<close>

text \<open>
  \<^verbatim>\<open>static cluster createNewCluster(std::set<int> points, std::vector<int> clusterLabels,
  cluster parentCluster, int clusterLabel, double edgeWeight)\<close>

  Every parameter is passed by value: the function works on copies of the caller's label
  vector and parent cluster. A \<^verbatim>\<open>std::set<int>\<close> is the list of its elements in ascending
  order, the order in which the iterator visits them.
\<close>

fun assign_labels :: "int list \<Rightarrow> int list \<Rightarrow> int \<Rightarrow> error + int list" where
  "assign_labels [] clusterLabels clusterLabel = Inr clusterLabels"
| "assign_labels (p # ps) clusterLabels clusterLabel =
     (case vec_set clusterLabels p clusterLabel of
        Inl e \<Rightarrow> Inl e
      | Inr clusterLabels' \<Rightarrow> assign_labels ps clusterLabels' clusterLabel)"

text \<open>
  What the function's own variables hold when it is left, and the value of its
  \<^verbatim>\<open>return\<close> statement, if it reached one.
\<close>

record createNewCluster_exit =
  clusterLabels_at_exit :: "int list"
  parentCluster_at_exit :: cluster
  returned :: "cluster option"

definition createNewCluster_body ::
  "int list \<Rightarrow> int list \<Rightarrow> cluster \<Rightarrow> int \<Rightarrow> real \<Rightarrow> error + createNewCluster_exit" where
  "createNewCluster_body points clusterLabels parentCluster clusterLabel edgeWeight =
     (case assign_labels points clusterLabels clusterLabel of
        Inl e \<Rightarrow> Inl e
      | Inr clusterLabels' \<Rightarrow>
          let parentCluster' = detachPoints parentCluster (length points) edgeWeight
          in if clusterLabel \<noteq> 0
             then Inr \<lparr> clusterLabels_at_exit = clusterLabels',
                        parentCluster_at_exit = parentCluster',
                        returned = Some (new_cluster clusterLabel parentCluster' edgeWeight
                                           (length points)) \<rparr>
             else Inr \<lparr> clusterLabels_at_exit = clusterLabels',
                        parentCluster_at_exit =
                          addPointsToVirtualChildCluster parentCluster' points,
                        returned = None \<rparr>)"

text \<open>
  The call as its caller sees it. The caller's label vector and parent cluster are copied
  into the parameters, the copies are destroyed when the function is left, and a function
  left without \<^verbatim>\<open>return\<close> has no value to give.
\<close>

record createNewCluster_caller =
  caller_clusterLabels :: "int list"
  caller_parentCluster :: cluster

definition createNewCluster ::
  "createNewCluster_caller \<Rightarrow> int list \<Rightarrow> int \<Rightarrow> real
     \<Rightarrow> error + (createNewCluster_caller \<times> cluster)" where
  "createNewCluster caller points clusterLabel edgeWeight =
     (case createNewCluster_body points (caller_clusterLabels caller)
             (caller_parentCluster caller) clusterLabel edgeWeight of
        Inl e \<Rightarrow> Inl e
      | Inr ex \<Rightarrow>
          (case returned ex of
             None \<Rightarrow> Inl NoReturnValue
           | Some c \<Rightarrow> Inr (caller, c)))"

text \<open>A root cluster with the given label and size, for concrete runs.\<close>

definition root_cluster :: "int \<Rightarrow> int \<Rightarrow> cluster" where
  "root_cluster label numPoints =
     \<lparr> Label = label, Parent = None, HasChildren = False,
       BirthLevel = 2, DeathLevel = 0, NumPoints = numPoints,
       Stability = Finite 0, PropagatedStability = Finite 0,
       PropagatedLowestChildDeathLevel = DBL_MAX,
       NumConstraintsSatisfied = 0, PropagatedNumConstraintsSatisfied = 0,
       VirtualChildConstraintsSatisfied = 0, VirtualChildCluster = [] \<rparr>"

section \<open>calculateNumConstraintsSatisfied\<close>

text \<open>
  Modelled from the spec: \<^verbatim>\<open>hdbscanConstraint.hpp\<close> is not among the sources. A constraint
  is "an ordered pair of point indices plus a type"; the record's fields are what
  \<^verbatim>\<open>getPointA()\<close>, \<^verbatim>\<open>getPointB()\<close> and \<^verbatim>\<open>getConstraintType()\<close> return.
\<close>

datatype hdbscanConstraintType = mustLink | cannotLink

record hdbscanConstraint =
  PointA :: int
  PointB :: int
  ConstraintType :: hdbscanConstraintType

text \<open>
  \<^verbatim>\<open>static void calculateNumConstraintsSatisfied(std::set<int> newClusterLabels,
  std::vector<cluster> clusters, std::vector<hdbscanConstraint> constraints,
  std::vector<int> clusterLabels)\<close>

  All four parameters are passed by value and the function returns nothing. The first loop
  collects copies of the parents of the new clusters; \<^verbatim>\<open>find\<close> compares clusters with the
  class's \<^verbatim>\<open>operator==\<close>, taken to be equality of all fields.
\<close>

fun collect_parents :: "store \<Rightarrow> cluster list \<Rightarrow> int list \<Rightarrow> cluster list \<Rightarrow> error + cluster list" where
  "collect_parents mem clusters [] parents = Inr parents"
| "collect_parents mem clusters (label # labels) parents =
     (case vec_get clusters label of
        Inl e \<Rightarrow> Inl e
      | Inr c \<Rightarrow>
          (case Parent c of
             None \<Rightarrow> collect_parents mem clusters labels parents
           | Some ptr \<Rightarrow>
               (case mem ptr of
                  None \<Rightarrow> Inl BadPointer
                | Some parent \<Rightarrow>
                    if parent \<in> set parents
                    then collect_parents mem clusters labels parents
                    else collect_parents mem clusters labels (parents @ [parent]))))"

text \<open>\<^verbatim>\<open>clusters[label].addConstraintsSatisfied(n)\<close> on the function's vector.\<close>

definition credit :: "cluster list \<Rightarrow> int \<Rightarrow> int \<Rightarrow> error + cluster list" where
  "credit clusters label n =
     (case vec_get clusters label of
        Inl e \<Rightarrow> Inl e
      | Inr c \<Rightarrow> vec_set clusters label (addConstraintsSatisfied c n))"

text \<open>
  \<^verbatim>\<open>for (cluster parent : parents) if (parent.virtualChildClusterConstraintsPoint(p))
  { parent.addVirtualChildConstraintsSatisfied(1); break; }\<close>

  The loop variable is a copy of the vector's element. The function gives the credited
  copy, which the loop then drops; the vector \<open>parents\<close> is not written.
\<close>

fun credit_virtual_child :: "cluster list \<Rightarrow> int \<Rightarrow> cluster option" where
  "credit_virtual_child [] point = None"
| "credit_virtual_child (parent # rest) point =
     (if virtualChildClusterConstraintsPoint parent point
      then Some (addVirtualChildConstraintsSatisfied parent 1)
      else credit_virtual_child rest point)"

definition account_constraint ::
  "int list \<Rightarrow> cluster list \<Rightarrow> int list \<Rightarrow> cluster list \<Rightarrow> hdbscanConstraint
     \<Rightarrow> error + cluster list" where
  "account_constraint newClusterLabels parents clusterLabels clusters constraint =
     (case vec_get clusterLabels (PointA constraint) of
        Inl e \<Rightarrow> Inl e
      | Inr labelA \<Rightarrow>
     (case vec_get clusterLabels (PointB constraint) of
        Inl e \<Rightarrow> Inl e
      | Inr labelB \<Rightarrow>
          if ConstraintType constraint = mustLink \<and> labelA = labelB then
            (if labelA \<in> set newClusterLabels then credit clusters labelA 2 else Inr clusters)
          else if ConstraintType constraint = cannotLink \<and> (labelA \<noteq> labelB \<or> labelA = 0) then
            (case (if labelA \<noteq> 0 \<and> labelA \<in> set newClusterLabels
                   then credit clusters labelA 1 else Inr clusters) of
               Inl e \<Rightarrow> Inl e
             | Inr clusters1 \<Rightarrow>
            (case (if labelB \<noteq> 0 \<and> labelA \<in> set newClusterLabels
                   then credit clusters1 labelB 1 else Inr clusters1) of
               Inl e \<Rightarrow> Inl e
             | Inr clusters2 \<Rightarrow>
                 let droppedA = (if labelA = 0
                                 then credit_virtual_child parents (PointA constraint) else None);
                     droppedB = (if labelB = 0
                                 then credit_virtual_child parents (PointB constraint) else None)
                 in Inr clusters2))
          else Inr clusters))"

fun account_constraints ::
  "int list \<Rightarrow> cluster list \<Rightarrow> int list \<Rightarrow> cluster list \<Rightarrow> hdbscanConstraint list
     \<Rightarrow> error + cluster list" where
  "account_constraints newClusterLabels parents clusterLabels clusters [] = Inr clusters"
| "account_constraints newClusterLabels parents clusterLabels clusters (constraint # rest) =
     (case account_constraint newClusterLabels parents clusterLabels clusters constraint of
        Inl e \<Rightarrow> Inl e
      | Inr clusters' \<Rightarrow>
          account_constraints newClusterLabels parents clusterLabels clusters' rest)"

record calculateNumConstraintsSatisfied_exit =
  clusters_at_exit :: "cluster list"
  parents_at_exit :: "cluster list"

text \<open>
  The last loop, \<^verbatim>\<open>for (cluster parent : parents) parent.releaseVirtualChildCluster();\<close>,
  releases copies of the elements of \<open>parents\<close> and leaves the vector as it is.
\<close>

definition calculateNumConstraintsSatisfied_body ::
  "store \<Rightarrow> int list \<Rightarrow> cluster list \<Rightarrow> hdbscanConstraint list \<Rightarrow> int list
     \<Rightarrow> error + calculateNumConstraintsSatisfied_exit" where
  "calculateNumConstraintsSatisfied_body mem newClusterLabels clusters constraints clusterLabels =
     (if length constraints = 0
      then Inr \<lparr> clusters_at_exit = clusters, parents_at_exit = [] \<rparr>
      else
        (case collect_parents mem clusters newClusterLabels [] of
           Inl e \<Rightarrow> Inl e
         | Inr parents \<Rightarrow>
             (case account_constraints newClusterLabels parents clusterLabels clusters
                     constraints of
                Inl e \<Rightarrow> Inl e
              | Inr clusters' \<Rightarrow>
                  let released = map releaseVirtualChildCluster parents
                  in Inr \<lparr> clusters_at_exit = clusters', parents_at_exit = parents \<rparr>)))"

text \<open>
  The call as its caller sees it: the caller's vectors are copied into the parameters,
  nothing is written through a pointer, nothing is returned.
\<close>

record constraints_caller =
  caller_clusters :: "cluster list"
  caller_labels :: "int list"
  caller_store :: store

definition calculateNumConstraintsSatisfied ::
  "constraints_caller \<Rightarrow> int list \<Rightarrow> hdbscanConstraint list \<Rightarrow> error + constraints_caller" where
  "calculateNumConstraintsSatisfied caller newClusterLabels constraints =
     (case calculateNumConstraintsSatisfied_body (caller_store caller) newClusterLabels
             (caller_clusters caller) constraints (caller_labels caller) of
        Inl e \<Rightarrow> Inl e
      | Inr ex \<Rightarrow> Inr caller)"

text \<open>
  A cluster tree for concrete runs: the root 0 and its children 1 and 2, stored in a vector
  indexed by label, as \<^verbatim>\<open>clusters[label]\<close> expects.
\<close>

definition child_cluster :: "int \<Rightarrow> cluster" where
  "child_cluster label = new_cluster label (root_cluster 0 4) 1 2"

definition tree_clusters :: "cluster list" where
  "tree_clusters = [root_cluster 0 4, child_cluster 1, child_cluster 2]"

definition tree_store :: store where
  "tree_store = (\<lambda>l. if in_range tree_clusters l then Some (tree_clusters ! nat l) else None)"

section \<open>propagateTree\<close>

text \<open>
  Modelled from the spec: \<^verbatim>\<open>bitSet.hpp\<close> is not among the sources; a bitSet is "a
  fixed-size set of small integers with O(1) membership test/set". A negative number is no
  position of it.
\<close>

type_synonym bitSet = "nat set"

definition bitSet_set :: "bitSet \<Rightarrow> int \<Rightarrow> error + bitSet" where
  "bitSet_set b i = (if i < 0 then Inl OutOfRange else Inr (insert (nat i) b))"

definition bitSet_get :: "bitSet \<Rightarrow> int \<Rightarrow> error + bool" where
  "bitSet_get b i = (if i < 0 then Inl OutOfRange else Inr (nat i \<in> b))"

text \<open>
  A \<^verbatim>\<open>std::map<int, cluster>\<close> is the list of its entries in ascending key order, with one
  entry for a key. An iterator is a position at a key, or the position past the last
  entry, which has no entry to read.
\<close>

type_synonym cluster_map = "(int \<times> cluster) list"

definition map_erase :: "int \<Rightarrow> cluster_map \<Rightarrow> cluster_map" where
  "map_erase k m = filter (\<lambda>entry. fst entry \<noteq> k) m"

definition map_insert :: "int \<Rightarrow> cluster \<Rightarrow> cluster_map \<Rightarrow> cluster_map" where
  "map_insert k v m = (if k \<in> fst ` set m then m else insort_key fst (k, v) m)"

datatype map_iterator = At int | End

fun map_deref :: "cluster_map \<Rightarrow> map_iterator \<Rightarrow> error + (int \<times> cluster)" where
  "map_deref m End = Inl PastTheEnd"
| "map_deref m (At k) = (case map_of m k of None \<Rightarrow> Inl PastTheEnd | Some c \<Rightarrow> Inr (k, c))"

text \<open>
  The state of \<^verbatim>\<open>propagateTree\<close>: its three local variables, the store the
  \<^verbatim>\<open>Parent\<close> pointers point into, and the labels of the clusters \<^verbatim>\<open>propagate()\<close> was
  called on so far (an instrument; the code keeps no such list).
\<close>

record propagate_state =
  clustersToExamine :: cluster_map
  addedToExaminationList :: bitSet
  infiniteStability :: bool
  pointees :: store
  propagated :: "int list"

text \<open>The first loop: every cluster without children enters the examination map.\<close>

fun find_leaves :: "cluster list \<Rightarrow> propagate_state \<Rightarrow> error + propagate_state" where
  "find_leaves [] st = Inr st"
| "find_leaves (c # cs) st =
     (if \<not> HasChildren c then
        (let label = Label c;
             m = map_insert label c (map_erase label (clustersToExamine st))
         in case bitSet_set (addedToExaminationList st) label of
              Inl e \<Rightarrow> Inl e
            | Inr added \<Rightarrow>
                find_leaves cs (st\<lparr> clustersToExamine := m, addedToExaminationList := added \<rparr>))
      else find_leaves cs st)"

text \<open>
  One round of the \<^verbatim>\<open>while\<close> loop. \<^verbatim>\<open>cluster::propagate()\<close> is not among the sources and
  is a parameter: it may change the cluster it is called on and, through the parent pointer,
  the store. The round starts by reading the entry at \<^verbatim>\<open>clustersToExamine.end()\<close>.
\<close>

definition propagate_round ::
  "(store \<Rightarrow> cluster \<Rightarrow> store \<times> cluster) \<Rightarrow> propagate_state \<Rightarrow> error + propagate_state" where
  "propagate_round propagate st =
     (case map_deref (clustersToExamine st) End of
        Inl e \<Rightarrow> Inl e
      | Inr currentKeyValue \<Rightarrow>
          let m = map_erase (fst currentKeyValue) (clustersToExamine st);
              after = propagate (pointees st) (snd currentKeyValue);
              currentCluster = snd after;
              st1 = st\<lparr> clustersToExamine := m,
                        pointees := fst after,
                        propagated := propagated st @ [Label currentCluster],
                        infiniteStability :=
                          (if Stability currentCluster = Infinite then True
                           else infiniteStability st) \<rparr>
          in (case Parent currentCluster of
                None \<Rightarrow> Inr st1
              | Some ptr \<Rightarrow>
                  (case pointees st1 ptr of
                     None \<Rightarrow> Inl BadPointer
                   | Some parent \<Rightarrow>
                       (case bitSet_get (addedToExaminationList st1) (Label parent) of
                          Inl e \<Rightarrow> Inl e
                        | Inr True \<Rightarrow> Inr st1
                        | Inr False \<Rightarrow>
                            (case bitSet_set (addedToExaminationList st1) (Label parent) of
                               Inl e \<Rightarrow> Inl e
                             | Inr added \<Rightarrow>
                                 Inr (st1\<lparr> clustersToExamine :=
                                             map_insert (Label parent) parent
                                               (map_erase (Label parent) m),
                                           addedToExaminationList := added \<rparr>))))))"

partial_function (option) propagate_loop ::
  "(store \<Rightarrow> cluster \<Rightarrow> store \<times> cluster) \<Rightarrow> propagate_state
     \<Rightarrow> (error + propagate_state) option" where
  "propagate_loop propagate st =
     (if length (clustersToExamine st) \<noteq> 0
      then (case propagate_round propagate st of
              Inl e \<Rightarrow> Some (Inl e)
            | Inr st' \<Rightarrow> propagate_loop propagate st')
      else Some (Inr st))"

definition propagateTree_run ::
  "(store \<Rightarrow> cluster \<Rightarrow> store \<times> cluster) \<Rightarrow> store \<Rightarrow> cluster list
     \<Rightarrow> (error + propagate_state) option" where
  "propagateTree_run propagate mem clusters =
     (case find_leaves clusters
             \<lparr> clustersToExamine = [], addedToExaminationList = {},
               infiniteStability = False, pointees = mem, propagated = [] \<rparr> of
        Inl e \<Rightarrow> Some (Inl e)
      | Inr st \<Rightarrow> propagate_loop propagate st)"

text \<open>\<^verbatim>\<open>static bool propagateTree(std::vector<cluster> clusters)\<close>: the flag it returns.\<close>

definition propagateTree ::
  "(store \<Rightarrow> cluster \<Rightarrow> store \<times> cluster) \<Rightarrow> store \<Rightarrow> cluster list \<Rightarrow> (error + bool) option" where
  "propagateTree propagate mem clusters =
     map_option (map_sum id infiniteStability) (propagateTree_run propagate mem clusters)"

section \<open>calculateOutlierScores\<close>

text \<open>
  Modelled from the spec: \<^verbatim>\<open>outlierScore.hpp\<close> is not among the sources. An outlier score
  is a "(score, core distance, point index) triple", a default-constructed one is a
  "zero-valued record", and \<^verbatim>\<open>operator<\<close> is the "total order by score first", then by
  core distance, then by index.
\<close>

record outlierScore =
  score :: real
  coreDistance :: real
  pointId :: int

definition outlierScore_default :: outlierScore where
  "outlierScore_default = \<lparr> score = 0, coreDistance = 0, pointId = 0 \<rparr>"

definition outlierScore_less :: "outlierScore \<Rightarrow> outlierScore \<Rightarrow> bool" where
  "outlierScore_less a b =
     (score a < score b \<or>
      (score a = score b \<and>
         (coreDistance a < coreDistance b \<or>
          (coreDistance a = coreDistance b \<and> pointId a < pointId b))))"

text \<open>
  \<^verbatim>\<open>sort(first, last)\<close> orders by \<^verbatim>\<open>operator<\<close>, smallest element first. Two records that
  neither precede the other are equal, so every sorting algorithm gives the same vector;
  insertion sort is used here.
\<close>

fun outlierScore_insert :: "outlierScore \<Rightarrow> outlierScore list \<Rightarrow> outlierScore list" where
  "outlierScore_insert x [] = [x]"
| "outlierScore_insert x (y # ys) =
     (if outlierScore_less y x then y # outlierScore_insert x ys else x # y # ys)"

fun outlierScore_sort :: "outlierScore list \<Rightarrow> outlierScore list" where
  "outlierScore_sort [] = []"
| "outlierScore_sort (x # xs) = outlierScore_insert x (outlierScore_sort xs)"

text \<open>
  The loop over the points. \<open>outlierScores\<close> is the vector built so far: the loop appends
  to it with \<^verbatim>\<open>push_back\<close>.
\<close>

fun score_points ::
  "cluster list \<Rightarrow> real list \<Rightarrow> int list \<Rightarrow> real list \<Rightarrow> nat list \<Rightarrow> outlierScore list
     \<Rightarrow> error + outlierScore list" where
  "score_points clusters pointNoiseLevels pointLastClusters coreDistances [] outlierScores =
     Inr outlierScores"
| "score_points clusters pointNoiseLevels pointLastClusters coreDistances (i # rest) outlierScores =
     (case vec_get pointLastClusters (int i) of
        Inl e \<Rightarrow> Inl e
      | Inr lastCluster \<Rightarrow>
     (case vec_get clusters lastCluster of
        Inl e \<Rightarrow> Inl e
      | Inr c \<Rightarrow>
     (case vec_get coreDistances (int i) of
        Inl e \<Rightarrow> Inl e
      | Inr core \<Rightarrow>
          let epsilonMax = PropagatedLowestChildDeathLevel c;
              epsilon = pointNoiseLevels ! i;
              pointScore = (if epsilon \<noteq> 0 then 1 - (epsilonMax / epsilon) else 0)
          in score_points clusters pointNoiseLevels pointLastClusters coreDistances rest
               (outlierScores @ [\<lparr> score = pointScore, coreDistance = core, pointId = int i \<rparr>]))))"

text \<open>
  \<^verbatim>\<open>std::vector<outlierScore> outlierScores(numPoints)\<close> makes a vector of \<open>numPoints\<close>
  default-constructed records; the loop runs over \<open>0 .. numPoints - 1\<close>, where
  \<open>pointNoiseLevels ! i\<close> is in range.
\<close>

definition calculateOutlierScores ::
  "cluster list \<Rightarrow> real list \<Rightarrow> int list \<Rightarrow> real list \<Rightarrow> error + outlierScore list" where
  "calculateOutlierScores clusters pointNoiseLevels pointLastClusters coreDistances =
     (let numPoints = length pointNoiseLevels;
          outlierScores = replicate numPoints outlierScore_default
      in case score_points clusters pointNoiseLevels pointLastClusters coreDistances
                [0..<numPoints] outlierScores of
           Inl e \<Rightarrow> Inl e
         | Inr outlierScores' \<Rightarrow> Inr (outlierScore_sort outlierScores'))"

section \<open>calculateCoreDistances\<close>

text \<open>
  \<^verbatim>\<open>while (neighborIndex >= 1 && distance < kNNDistances[neighborIndex - 1]) neighborIndex--;\<close>
  started at \<open>neighborIndex\<close>; the result is the final \<open>neighborIndex\<close>.
\<close>

fun find_position :: "real \<Rightarrow> real list \<Rightarrow> nat \<Rightarrow> nat" where
  "find_position distance kNNDistances 0 = 0"
| "find_position distance kNNDistances (Suc j) =
     (if distance < kNNDistances ! j then find_position distance kNNDistances j else Suc j)"

text \<open>
  \<^verbatim>\<open>for (shiftIndex = ...; shiftIndex > neighborIndex; shiftIndex--)
  kNNDistances[shiftIndex] = kNNDistances[shiftIndex - 1];\<close> started at \<open>shiftIndex\<close>.
\<close>

fun shift_right :: "real list \<Rightarrow> nat \<Rightarrow> nat \<Rightarrow> real list" where
  "shift_right kNNDistances neighborIndex 0 = kNNDistances"
| "shift_right kNNDistances neighborIndex (Suc j) =
     (if Suc j > neighborIndex
      then shift_right (kNNDistances[Suc j := kNNDistances ! j]) neighborIndex j
      else kNNDistances)"

text \<open>
  The body of the loop over the neighbours, for one distance. All indices it uses lie in
  \<open>0 .. numNeighbors - 1\<close>, the range of \<open>kNNDistances\<close>.
\<close>

definition insert_distance :: "real list \<Rightarrow> real \<Rightarrow> real list" where
  "insert_distance kNNDistances distance =
     (let numNeighbors = length kNNDistances;
          neighborIndex = find_position distance kNNDistances numNeighbors
      in if neighborIndex < numNeighbors
         then (shift_right kNNDistances neighborIndex (numNeighbors - 1))
                [neighborIndex := distance]
         else kNNDistances)"

text \<open>The loop over the neighbours of \<open>point\<close>; \<open>point\<close> is a row of the matrix.\<close>

fun scan_neighbors :: "real list list \<Rightarrow> nat \<Rightarrow> nat list \<Rightarrow> real list \<Rightarrow> error + real list" where
  "scan_neighbors distances point [] kNNDistances = Inr kNNDistances"
| "scan_neighbors distances point (neighbor # rest) kNNDistances =
     (if point = neighbor then scan_neighbors distances point rest kNNDistances
      else (case vec_get (distances ! point) (int neighbor) of
              Inl e \<Rightarrow> Inl e
            | Inr distance \<Rightarrow>
                scan_neighbors distances point rest (insert_distance kNNDistances distance)))"

text \<open>
  The body of the loop over the points: the buffer of \<open>numNeighbors\<close> entries, the scan,
  and the read of \<^verbatim>\<open>kNNDistances[numNeighbors - 1]\<close>.
\<close>

definition core_distance :: "real list list \<Rightarrow> int \<Rightarrow> nat \<Rightarrow> error + real" where
  "core_distance distances numNeighbors point =
     (if numNeighbors < 0 then Inl BadLength
      else (case scan_neighbors distances point [0..<length distances]
                   (replicate (nat numNeighbors) DBL_MAX) of
              Inl e \<Rightarrow> Inl e
            | Inr kNNDistances \<Rightarrow> vec_get kNNDistances (numNeighbors - 1)))"

fun core_distances_loop ::
  "real list list \<Rightarrow> int \<Rightarrow> nat list \<Rightarrow> real list \<Rightarrow> error + real list" where
  "core_distances_loop distances numNeighbors [] coreDistances = Inr coreDistances"
| "core_distances_loop distances numNeighbors (point # rest) coreDistances =
     (case core_distance distances numNeighbors point of
        Inl e \<Rightarrow> Inl e
      | Inr d \<Rightarrow>
          core_distances_loop distances numNeighbors rest (coreDistances[point := d]))"

text \<open>
  \<^verbatim>\<open>static std::vector<double> calculateCoreDistances(
  std::vector<std::vector<double>> distances, int k)\<close>
\<close>

definition calculateCoreDistances :: "real list list \<Rightarrow> int \<Rightarrow> error + real list" where
  "calculateCoreDistances distances k =
     (let numNeighbors = k - 1;
          coreDistances = replicate (length distances) 0
      in if k = 1 then Inr coreDistances
         else core_distances_loop distances numNeighbors [0..<length distances] coreDistances)"

text \<open>
  A distance matrix as the specification's data model has it: one row per point, every
  row as long as the matrix, no entry negative.
\<close>

definition distance_matrix :: "real list list \<Rightarrow> bool" where
  "distance_matrix distances =
     list_all (\<lambda>row. length row = length distances \<and> list_all (\<lambda>d. 0 \<le> d) row) distances"

section \<open>constructMst\<close>

text \<open>
  The mutual reachability distance as the loop computes it: the distance, raised to the
  core distance of the current point and then to that of the neighbour.
\<close>

definition mutualReachabilityDistance :: "real list list \<Rightarrow> real list \<Rightarrow> nat \<Rightarrow> nat \<Rightarrow> real" where
  "mutualReachabilityDistance distances coreDistances currentPoint neighbor =
     (let distance = distances ! currentPoint ! neighbor;
          raised = (if coreDistances ! currentPoint > distance
                    then coreDistances ! currentPoint else distance)
      in if coreDistances ! neighbor > raised then coreDistances ! neighbor else raised)"

text \<open>
  The variables the inner \<^verbatim>\<open>for\<close> loop writes: the two vectors and the best candidate
  found so far (\<open>-1\<close> while there is none).
\<close>

record mst_scan =
  nearestMRDNeighbors :: "nat list"
  nearestMRDDistances :: "real list"
  nearestMRDPoint :: int
  nearestMRDDistance :: real

text \<open>
  The body of the inner loop for one \<open>neighbor\<close>, with the indices it uses checked.
  The two vectors are built with the same length, so a position of the recorded distances
  is a position of the recorded neighbours as well.
\<close>

definition update_neighbor ::
  "real list list \<Rightarrow> real list \<Rightarrow> bitSet \<Rightarrow> nat \<Rightarrow> mst_scan \<Rightarrow> nat \<Rightarrow> error + mst_scan" where
  "update_neighbor distances coreDistances attachedPoints currentPoint s neighbor =
     (if currentPoint = neighbor then Inr s
      else if neighbor \<in> attachedPoints then Inr s
      else if \<not> (currentPoint < length distances
                  \<and> neighbor < length (distances ! currentPoint)
                  \<and> currentPoint < length coreDistances
                  \<and> neighbor < length coreDistances
                  \<and> neighbor < length (nearestMRDDistances s)
                  \<and> neighbor < length (nearestMRDNeighbors s))
      then Inl OutOfRange
      else
        let mrd = mutualReachabilityDistance distances coreDistances currentPoint neighbor;
            s1 = (if mrd < nearestMRDDistances s ! neighbor
                  then s\<lparr> nearestMRDDistances := (nearestMRDDistances s)[neighbor := mrd],
                          nearestMRDNeighbors :=
                            (nearestMRDNeighbors s)[neighbor := currentPoint] \<rparr>
                  else s)
        in Inr (if nearestMRDDistances s1 ! neighbor \<le> nearestMRDDistance s1
                then s1\<lparr> nearestMRDDistance := nearestMRDDistances s1 ! neighbor,
                         nearestMRDPoint := int neighbor \<rparr>
                else s1))"

fun scan_unattached ::
  "real list list \<Rightarrow> real list \<Rightarrow> bitSet \<Rightarrow> nat \<Rightarrow> nat list \<Rightarrow> mst_scan \<Rightarrow> error + mst_scan" where
  "scan_unattached distances coreDistances attachedPoints currentPoint [] s = Inr s"
| "scan_unattached distances coreDistances attachedPoints currentPoint (neighbor # rest) s =
     (case update_neighbor distances coreDistances attachedPoints currentPoint s neighbor of
        Inl e \<Rightarrow> Inl e
      | Inr s' \<Rightarrow> scan_unattached distances coreDistances attachedPoints currentPoint rest s')"

text \<open>
  The variables of the \<^verbatim>\<open>while\<close> loop, and the number of rounds it has made (an
  instrument; the code does not count them).
\<close>

record mst_state =
  neighbors :: "nat list"
  mrdDistances :: "real list"
  attachedPoints :: bitSet
  currentPoint :: nat
  numAttachedPoints :: nat
  rounds :: nat

text \<open>
  One round of the \<^verbatim>\<open>while\<close> loop: the scan from \<open>nearestMRDPoint = -1\<close> and
  \<open>nearestMRDDistance = DBL_MAX\<close>, then \<^verbatim>\<open>attachedPoints.set(nearestMRDPoint)\<close>, which has
  no position \<open>-1\<close>.
\<close>

definition attach_nearest ::
  "real list list \<Rightarrow> real list \<Rightarrow> mst_state \<Rightarrow> error + mst_state" where
  "attach_nearest distances coreDistances st =
     (case scan_unattached distances coreDistances (attachedPoints st) (currentPoint st)
             [0..<length distances]
             \<lparr> nearestMRDNeighbors = neighbors st, nearestMRDDistances = mrdDistances st,
               nearestMRDPoint = - 1, nearestMRDDistance = DBL_MAX \<rparr> of
        Inl e \<Rightarrow> Inl e
      | Inr s \<Rightarrow>
          (case bitSet_set (attachedPoints st) (nearestMRDPoint s) of
             Inl e \<Rightarrow> Inl e
           | Inr attached \<Rightarrow>
               Inr \<lparr> neighbors = nearestMRDNeighbors s,
                     mrdDistances = nearestMRDDistances s,
                     attachedPoints = attached,
                     currentPoint = nat (nearestMRDPoint s),
                     numAttachedPoints = numAttachedPoints st + 1,
                     rounds = rounds st + 1 \<rparr>))"

function attach_all :: "real list list \<Rightarrow> real list \<Rightarrow> mst_state \<Rightarrow> error + mst_state" where
  "attach_all distances coreDistances st =
     (if numAttachedPoints st < length distances
      then (case attach_nearest distances coreDistances st of
              Inl e \<Rightarrow> Inl e
            | Inr st' \<Rightarrow> attach_all distances coreDistances st')
      else Inr st)"
  by pat_completeness auto
termination
  by (relation "measure (\<lambda>(distances, coreDistances, st). length distances - numAttachedPoints st)")
     (auto simp: attach_nearest_def split: sum.splits)

text \<open>
  The state in which the \<^verbatim>\<open>while\<close> loop starts. The two vectors have
  \<open>length - 1 + selfEdgeCapacity\<close> entries, which is negative for an empty matrix; the
  first \<open>length - 1\<close> distances are set to \<open>DBL_MAX\<close>, the others are 0.
\<close>

definition mst_start :: "real list list \<Rightarrow> bool \<Rightarrow> error + mst_state" where
  "mst_start distances selfEdges =
     (let selfEdgeCapacity = (if selfEdges then int (length distances) else 0)
      in if int (length distances) - 1 + selfEdgeCapacity < 0 then Inl BadLength
         else
           (case bitSet_set {} (int (length distances) - 1) of
              Inl e \<Rightarrow> Inl e
            | Inr attached \<Rightarrow>
                Inr \<lparr> neighbors = replicate (nat (int (length distances) - 1 + selfEdgeCapacity)) 0,
                      mrdDistances = replicate (length distances - 1) DBL_MAX
                                       @ replicate (nat selfEdgeCapacity) 0,
                      attachedPoints = attached,
                      currentPoint = length distances - 1,
                      numAttachedPoints = 1,
                      rounds = 0 \<rparr>))"

definition constructMst_loop :: "real list list \<Rightarrow> real list \<Rightarrow> bool \<Rightarrow> error + mst_state" where
  "constructMst_loop distances coreDistances selfEdges =
     (case mst_start distances selfEdges of
        Inl e \<Rightarrow> Inl e
      | Inr st \<Rightarrow> attach_all distances coreDistances st)"

text \<open>
  Modelled from the spec: \<^verbatim>\<open>undirectedGraph.hpp\<close> is not among the sources. The graph is
  what its constructor is given: the number of vertices and, for every edge, "(endpoint A,
  endpoint B, weight)".
\<close>

record undirectedGraph =
  numVertices :: nat
  verticesA :: "nat list"
  verticesB :: "nat list"
  edgeWeights :: "real list"

text \<open>
  The loop that writes the self edges: the edge of \<open>vertex\<close> is entry
  \<open>length - 1 + vertex\<close> of the three vectors.
\<close>

fun add_self_edges ::
  "real list \<Rightarrow> nat \<Rightarrow> nat list \<Rightarrow> undirectedGraph \<Rightarrow> error + undirectedGraph" where
  "add_self_edges coreDistances offset [] g = Inr g"
| "add_self_edges coreDistances offset (vertex # rest) g =
     (if \<not> (vertex < length coreDistances \<and> offset + vertex < length (verticesA g)
             \<and> offset + vertex < length (verticesB g)
             \<and> offset + vertex < length (edgeWeights g))
      then Inl OutOfRange
      else add_self_edges coreDistances offset rest
             (g\<lparr> verticesA := (verticesA g)[offset + vertex := vertex],
                 verticesB := (verticesB g)[offset + vertex := vertex],
                 edgeWeights := (edgeWeights g)[offset + vertex := coreDistances ! vertex] \<rparr>))"

text \<open>
  \<^verbatim>\<open>static undirectedGraph constructMst(std::vector<std::vector<double>> distances,
  std::vector<double> coreDistances, bool selfEdges)\<close>
\<close>

definition constructMst :: "real list list \<Rightarrow> real list \<Rightarrow> bool \<Rightarrow> error + undirectedGraph" where
  "constructMst distances coreDistances selfEdges =
     (case constructMst_loop distances coreDistances selfEdges of
        Inl e \<Rightarrow> Inl e
      | Inr st \<Rightarrow>
          let selfEdgeCapacity = (if selfEdges then length distances else 0);
              otherVertexIndices = [0..<length distances - 1] @ replicate selfEdgeCapacity 0;
              g = \<lparr> numVertices = length distances, verticesA = neighbors st,
                    verticesB = otherVertexIndices, edgeWeights = mrdDistances st \<rparr>
          in if selfEdges
             then add_self_edges coreDistances (length distances - 1) [0..<length distances] g
             else Inr g)"

text \<open>
  The inputs of \<^verbatim>\<open>constructMst\<close>: a square matrix and one core distance per point.
\<close>

definition mst_input :: "real list list \<Rightarrow> real list \<Rightarrow> bool" where
  "mst_input distances coreDistances =
     (length coreDistances = length distances
      \<and> list_all (\<lambda>row. length row = length distances) distances)"

text \<open>The inputs all of whose entries lie below \<open>DBL_MAX\<close>.\<close>

definition below_DBL_MAX :: "real list list \<Rightarrow> real list \<Rightarrow> bool" where
  "below_DBL_MAX distances coreDistances =
     (list_all (\<lambda>c. c < DBL_MAX) coreDistances
      \<and> list_all (list_all (\<lambda>d. d < DBL_MAX)) distances)"

text \<open>
  The tree edges of a graph are its first \<open>numVertices - 1\<close> edges; they connect all points
  when every two points are joined by a path of tree edges, walked in either direction.
\<close>

definition tree_edges :: "undirectedGraph \<Rightarrow> (nat \<times> nat) set" where
  "tree_edges g = (\<lambda>i. (verticesA g ! i, verticesB g ! i)) ` {0..<numVertices g - 1}"

definition connects_all :: "undirectedGraph \<Rightarrow> bool" where
  "connects_all g =
     (\<forall>a < numVertices g. \<forall>b < numVertices g.
        (a, b) \<in> (tree_edges g \<union> (tree_edges g)\<inverse>)\<^sup>*)"

text \<open>
  What holds of the loop's variables before and after every round: the vectors are long
  enough for every point but the last, every attached point is a point, the last point and
  the current point are attached, the counter counts the attached points, and no recorded
  distance exceeds \<open>DBL_MAX\<close>.
\<close>

definition mst_invariant :: "real list list \<Rightarrow> mst_state \<Rightarrow> bool" where
  "mst_invariant distances st =
     (length distances - 1 \<le> length (neighbors st)
      \<and> length (mrdDistances st) = length (neighbors st)
      \<and> finite (attachedPoints st)
      \<and> (\<forall>j \<in> attachedPoints st. j < length distances)
      \<and> length distances - 1 \<in> attachedPoints st
      \<and> currentPoint st \<in> attachedPoints st
      \<and> card (attachedPoints st) = numAttachedPoints st
      \<and> rounds st + 1 = numAttachedPoints st
      \<and> (\<forall>j < length distances - 1. mrdDistances st ! j \<le> DBL_MAX))"

text \<open>
  What the loop keeps true when all entries lie below \<open>DBL_MAX\<close>: a recorded distance
  below \<open>DBL_MAX\<close> is the mutual reachability distance to the recorded neighbour, which is
  attached; every attached point but the last has such a record; and every attached point
  is joined to the last point by the recorded edges of attached points.
\<close>

definition attached_edges :: "real list list \<Rightarrow> mst_state \<Rightarrow> (nat \<times> nat) set" where
  "attached_edges distances st =
     (\<lambda>i. (neighbors st ! i, i)) ` (attachedPoints st - {length distances - 1})"

definition mst_tree_invariant :: "real list list \<Rightarrow> real list \<Rightarrow> mst_state \<Rightarrow> bool" where
  "mst_tree_invariant distances coreDistances st =
     ((\<forall>j < length distances - 1. mrdDistances st ! j < DBL_MAX \<longrightarrow>
          neighbors st ! j \<in> attachedPoints st
          \<and> mrdDistances st ! j =
              mutualReachabilityDistance distances coreDistances (neighbors st ! j) j)
      \<and> (\<forall>j \<in> attachedPoints st. j < length distances - 1 \<longrightarrow> mrdDistances st ! j < DBL_MAX)
      \<and> (\<forall>j \<in> attachedPoints st.
            (j, length distances - 1)
              \<in> (attached_edges distances st \<union> (attached_edges distances st)\<inverse>)\<^sup>*))"

section \<open>Properties of createNewCluster\<close>

lemma assign_labels_length:
  "assign_labels ps ls l = Inr ls' \<Longrightarrow> length ls' = length ls"
  by (induction ps arbitrary: ls)
     (auto simp: vec_set_def split: if_splits sum.splits)

lemma assign_labels_sets:
  "assign_labels ps ls l = Inr ls' \<Longrightarrow> p \<in> set ps \<Longrightarrow> vec_get ls' p = Inr l"
proof (induction ps arbitrary: ls)
  case Nil
  then show ?case by simp
next
  case (Cons q qs)
  from Cons.prems(1) obtain ls1 where
    q: "vec_set ls q l = Inr ls1" and rest: "assign_labels qs ls1 l = Inr ls'"
    by (auto split: sum.splits)
  show ?case
  proof (cases "p \<in> set qs")
    case True
    with Cons.IH [OF rest] show ?thesis by simp
  next
    case False
    with Cons.prems(2) have pq: "p = q" by simp
    have keep: "\<And>ls0 ls2. assign_labels qs ls0 l = Inr ls2 \<Longrightarrow> p \<notin> set qs
                  \<Longrightarrow> in_range ls0 p \<Longrightarrow> ls2 ! nat p = ls0 ! nat p \<and> in_range ls2 p"
    proof -
      fix ls0 ls2
      show "assign_labels qs ls0 l = Inr ls2 \<Longrightarrow> p \<notin> set qs
              \<Longrightarrow> in_range ls0 p \<Longrightarrow> ls2 ! nat p = ls0 ! nat p \<and> in_range ls2 p"
      proof (induction qs arbitrary: ls0)
        case Nil
        then show ?case by simp
      next
        case (Cons r rs)
        from Cons.prems(1) obtain ls3 where
          r: "vec_set ls0 r l = Inr ls3" and more: "assign_labels rs ls3 l = Inr ls2"
          by (auto split: sum.splits)
        from r Cons.prems(2,3) have "in_range ls3 p" "ls3 ! nat p = ls0 ! nat p"
          by (auto simp: vec_set_def in_range_def split: if_splits)
        with Cons.IH [OF more] Cons.prems(2) show ?case by simp
      qed
    qed
    from q pq have "in_range ls1 p" "ls1 ! nat p = l"
      by (auto simp: vec_set_def in_range_def split: if_splits)
    with keep [OF rest False] show ?thesis
      by (simp add: vec_get_def)
  qed
qed

text \<open>
  Inside the function the copy of the label vector is updated as intended: at exit every
  point of the set carries the new label in the function's own vector.
\<close>

lemma createNewCluster_body_labels:
  assumes "createNewCluster_body points clusterLabels parentCluster clusterLabel edgeWeight = Inr ex"
    and "p \<in> set points"
  shows "vec_get (clusterLabels_at_exit ex) p = Inr clusterLabel"
  using assms
  by (auto simp: createNewCluster_body_def Let_def assign_labels_sets
           split: sum.splits if_splits)

text \<open>The caller's variables are the same after every call that returns.\<close>

lemma createNewCluster_frame:
  "createNewCluster caller points clusterLabel edgeWeight = Inr (caller', c) \<Longrightarrow> caller' = caller"
  by (auto simp: createNewCluster_def split: sum.splits option.splits)

lemma createNewCluster_noise:
  "createNewCluster caller points 0 edgeWeight \<noteq> Inr r"
  by (auto simp: createNewCluster_def createNewCluster_body_def Let_def
           split: sum.splits option.splits)

text \<open>
  C1, at the call \<^verbatim>\<open>createNewCluster({0, 1}, [5, 5, 5], parent, 7, 1.0)\<close>: the call
  returns the new cluster 7, and the caller's label vector still reads \<open>[5, 5, 5]\<close>;
  entries 0 and 1 are not 7. Only the function's own copy was changed to \<open>[7, 7, 5]\<close>.
\<close>

theorem createNewCluster_caller_labels_unchanged:
  "(case createNewCluster
           \<lparr> caller_clusterLabels = [5, 5, 5], caller_parentCluster = root_cluster 1 3 \<rparr>
           [0, 1] 7 1 of
      Inl e \<Rightarrow> False
    | Inr (caller', c) \<Rightarrow>
        caller_clusterLabels caller' = [5, 5, 5] \<and> Label c = 7 \<and>
        vec_get (caller_clusterLabels caller') 0 = Inr 5 \<and>
        vec_get (caller_clusterLabels caller') 1 = Inr 5)
   \<and> map_sum id clusterLabels_at_exit
        (createNewCluster_body [0, 1] [5, 5, 5] (root_cluster 1 3) 7 1) = Inr [7, 7, 5]"
  by (simp add: createNewCluster_def createNewCluster_body_def vec_set_def vec_get_def
        in_range_def Let_def new_cluster_def)

text \<open>
  C8, at the call \<^verbatim>\<open>createNewCluster({0, 1}, [5, 5, 5], parent, 0, 1.0)\<close>: with the noise
  label the function is left without a \<^verbatim>\<open>return\<close> statement, so the call has no defined
  result, although its declared result is a cluster. The point set was registered as
  virtual child cluster, and the two points were detached, in the function's copy of the
  parent only.
\<close>

theorem createNewCluster_noise_no_return:
  "createNewCluster
      \<lparr> caller_clusterLabels = [5, 5, 5], caller_parentCluster = root_cluster 1 3 \<rparr>
      [0, 1] 0 1 = Inl NoReturnValue
   \<and> map_sum id (\<lambda>ex. (VirtualChildCluster (parentCluster_at_exit ex),
                        NumPoints (parentCluster_at_exit ex), returned ex))
        (createNewCluster_body [0, 1] [5, 5, 5] (root_cluster 1 3) 0 1)
      = Inr ([0, 1], 1, None)
   \<and> VirtualChildCluster (root_cluster 1 3) = [] \<and> NumPoints (root_cluster 1 3) = 3"
  by (simp add: createNewCluster_def createNewCluster_body_def vec_set_def
        in_range_def Let_def root_cluster_def detachPoints_def
        addPointsToVirtualChildCluster_def)


section \<open>Properties of calculateNumConstraintsSatisfied\<close>

text \<open>No call changes anything its caller can read.\<close>

lemma calculateNumConstraintsSatisfied_frame:
  "calculateNumConstraintsSatisfied caller newClusterLabels constraints = Inr caller'
     \<Longrightarrow> caller' = caller"
  by (auto simp: calculateNumConstraintsSatisfied_def split: sum.splits)

text \<open>
  C6, at the call with the new cluster labels \<open>{1}\<close>, the clusters 0, 1, 2, one must-link
  constraint between the points 0 and 1, and the point labels \<open>[1, 1]\<close>: the function's own
  copy of cluster 1 ends with 2 satisfied constraints, and the caller's cluster 1 has 0
  after the call, as before it.
\<close>

theorem calculateNumConstraintsSatisfied_must_link_lost:
  "map_sum id (\<lambda>caller'. NumConstraintsSatisfied (caller_clusters caller' ! 1))
     (calculateNumConstraintsSatisfied
        \<lparr> caller_clusters = tree_clusters, caller_labels = [1, 1], caller_store = tree_store \<rparr>
        [1] [\<lparr> PointA = 0, PointB = 1, ConstraintType = mustLink \<rparr>]) = Inr 0
   \<and> map_sum id (\<lambda>ex. NumConstraintsSatisfied (clusters_at_exit ex ! 1))
       (calculateNumConstraintsSatisfied_body tree_store [1] tree_clusters
          [\<lparr> PointA = 0, PointB = 1, ConstraintType = mustLink \<rparr>] [1, 1]) = Inr 2
   \<and> NumConstraintsSatisfied (tree_clusters ! 1) = 0"
  by (simp add: calculateNumConstraintsSatisfied_def calculateNumConstraintsSatisfied_body_def
        account_constraint_def credit_def vec_get_def vec_set_def in_range_def
        tree_clusters_def tree_store_def child_cluster_def new_cluster_def root_cluster_def
        addConstraintsSatisfied_def Let_def)

text \<open>
  C7, at the call with the new cluster labels \<open>{2}\<close>, one cannot-link constraint between
  the points 0 and 1, and the point labels \<open>[1, 2]\<close>: the endpoint 1 has the new label 2,
  and cluster 2 is credited nothing, not even in the function's own vector. With the new
  labels \<open>{1}\<close> instead, cluster 2 is credited 1 although 2 is no new label: the test for
  the second endpoint reads the first endpoint's label.
\<close>

theorem calculateNumConstraintsSatisfied_cannot_link_B_missed:
  "map_sum id (\<lambda>ex. map NumConstraintsSatisfied (clusters_at_exit ex))
     (calculateNumConstraintsSatisfied_body tree_store [2] tree_clusters
        [\<lparr> PointA = 0, PointB = 1, ConstraintType = cannotLink \<rparr>] [1, 2]) = Inr [0, 0, 0]
   \<and> map_sum id (\<lambda>ex. map NumConstraintsSatisfied (clusters_at_exit ex))
       (calculateNumConstraintsSatisfied_body tree_store [1] tree_clusters
          [\<lparr> PointA = 0, PointB = 1, ConstraintType = cannotLink \<rparr>] [1, 2]) = Inr [0, 1, 1]"
  by (simp add: calculateNumConstraintsSatisfied_body_def
        account_constraint_def credit_def vec_get_def vec_set_def in_range_def
        tree_clusters_def tree_store_def child_cluster_def new_cluster_def root_cluster_def
        addConstraintsSatisfied_def Let_def)

section \<open>Properties of propagateTree\<close>

lemma propagate_loop_nonempty:
  "length (clustersToExamine st) \<noteq> 0 \<Longrightarrow> propagate_loop propagate st = Some (Inl PastTheEnd)"
  by (subst propagate_loop.simps) (simp add: propagate_round_def)

lemma find_leaves_added:
  "find_leaves cs st = Inr st' \<Longrightarrow>
     length (clustersToExamine st) \<noteq> 0 \<or> (\<exists>c \<in> set cs. \<not> HasChildren c)
     \<Longrightarrow> length (clustersToExamine st') \<noteq> 0"
proof (induction cs arbitrary: st)
  case Nil
  then show ?case by simp
next
  case (Cons c cs)
  show ?case
  proof (cases "HasChildren c")
    case True
    with Cons.prems have "find_leaves cs st = Inr st'" by simp
    moreover from True Cons.prems(2)
    have "length (clustersToExamine st) \<noteq> 0 \<or> (\<exists>c \<in> set cs. \<not> HasChildren c)" by auto
    ultimately show ?thesis by (rule Cons.IH)
  next
    case False
    with Cons.prems(1) obtain added where
      rest: "find_leaves cs (st\<lparr> clustersToExamine :=
                 map_insert (Label c) c (map_erase (Label c) (clustersToExamine st)),
               addedToExaminationList := added \<rparr>) = Inr st'"
      by (auto simp: Let_def split: sum.splits)
    have "map_insert (Label c) c (map_erase (Label c) (clustersToExamine st)) \<noteq> []"
      using length_insort [of fst "(Label c, c)" "map_erase (Label c) (clustersToExamine st)"]
      by (auto simp: map_insert_def map_erase_def simp del: length_insort)
    then show ?thesis
      using Cons.IH [OF rest] by simp
  qed
qed

text \<open>
  Whenever the input holds a cluster without children, the first round of the loop reads
  the entry at \<^verbatim>\<open>end()\<close>, whatever \<^verbatim>\<open>propagate()\<close> does: no cluster is propagated.
\<close>

lemma propagateTree_run_past_the_end:
  assumes "\<exists>c \<in> set clusters. \<not> HasChildren c"
  shows "propagateTree_run propagate mem clusters = Some (Inl PastTheEnd)
           \<or> propagateTree_run propagate mem clusters = Some (Inl OutOfRange)"
proof (cases "find_leaves clusters
                \<lparr> clustersToExamine = [], addedToExaminationList = {},
                  infiniteStability = False, pointees = mem, propagated = [] \<rparr>")
  case (Inl e)
  have "\<And>st. find_leaves cs st = Inl e \<Longrightarrow> e = OutOfRange" for cs
    by (induction cs)
       (auto simp: bitSet_set_def Let_def split: if_splits sum.splits)
  with Inl have "e = OutOfRange" by blast
  with Inl show ?thesis by (simp add: propagateTree_run_def)
next
  case (Inr st)
  from find_leaves_added [OF Inr] assms have "length (clustersToExamine st) \<noteq> 0" by blast
  then have "propagate_loop propagate st = Some (Inl PastTheEnd)"
    by (rule propagate_loop_nonempty)
  with Inr show ?thesis by (simp add: propagateTree_run_def)
qed

text \<open>
  C2, at the input list that holds the single cluster 1, a root without children: the loop
  reads the entry at \<^verbatim>\<open>end()\<close> of the examination map and \<^verbatim>\<open>propagate()\<close> is called on no
  cluster, where the list holds one.
\<close>

theorem propagateTree_single_leaf:
  "propagateTree_run propagate mem [root_cluster 1 3] = Some (Inl PastTheEnd)
   \<and> propagateTree propagate mem [root_cluster 1 3] = Some (Inl PastTheEnd)"
proof -
  have leaves: "find_leaves [root_cluster 1 3]
                  \<lparr> clustersToExamine = [], addedToExaminationList = {},
                    infiniteStability = False, pointees = mem, propagated = [] \<rparr>
                = Inr \<lparr> clustersToExamine = [(1, root_cluster 1 3)],
                        addedToExaminationList = {1},
                        infiniteStability = False, pointees = mem, propagated = [] \<rparr>"
    by (simp add: root_cluster_def bitSet_set_def map_insert_def map_erase_def Let_def)
  have "propagateTree_run propagate mem [root_cluster 1 3] = Some (Inl PastTheEnd)"
    unfolding propagateTree_run_def leaves by (simp add: propagate_loop_nonempty)
  then show ?thesis by (simp add: propagateTree_def)
qed

section \<open>Properties of calculateOutlierScores\<close>

lemma outlierScore_insert_length: "length (outlierScore_insert x xs) = Suc (length xs)"
  by (induction xs) auto

lemma outlierScore_sort_length: "length (outlierScore_sort xs) = length xs"
  by (induction xs) (auto simp: outlierScore_insert_length)

lemma score_points_length:
  "score_points cl nl lc cd is acc = Inr out \<Longrightarrow> length out = length acc + length is"
  by (induction "is" arbitrary: acc) (auto simp: Let_def split: sum.splits)

text \<open>The vector returned has two entries for every point.\<close>

lemma calculateOutlierScores_length:
  "calculateOutlierScores clusters pointNoiseLevels pointLastClusters coreDistances = Inr out
     \<Longrightarrow> length out = 2 * length pointNoiseLevels"
  by (auto simp: calculateOutlierScores_def Let_def outlierScore_sort_length
           dest!: score_points_length split: sum.splits)

text \<open>
  C3, at the input with the two points 0 and 1, both last in cluster 1, with noise levels 2
  and 4 and core distances 1 and 1, where cluster 1 has the propagated lowest child death
  level 1: the result has 4 entries, not 2. Two of them are default-constructed records
  that belong to no point, and the scores 0, 0, 1/2, 3/4 ascend.
\<close>

theorem calculateOutlierScores_doubled:
  "calculateOutlierScores
      [root_cluster 0 2, (root_cluster 1 2)\<lparr> PropagatedLowestChildDeathLevel := 1 \<rparr>]
      [2, 4] [1, 1] [1, 1]
   = Inr [\<lparr> score = 0, coreDistance = 0, pointId = 0 \<rparr>,
          \<lparr> score = 0, coreDistance = 0, pointId = 0 \<rparr>,
          \<lparr> score = 1 / 2, coreDistance = 1, pointId = 0 \<rparr>,
          \<lparr> score = 3 / 4, coreDistance = 1, pointId = 1 \<rparr>]"
  by (simp add: calculateOutlierScores_def vec_get_def in_range_def root_cluster_def
        outlierScore_default_def outlierScore_less_def Let_def upt_rec numeral_2_eq_2)

section \<open>Properties of calculateCoreDistances\<close>

lemma find_position_le: "find_position d b n \<le> n"
  by (induction n) auto

lemma find_position_above:
  "find_position d b n \<le> i \<Longrightarrow> i < n \<Longrightarrow> d < b ! i"
proof (induction n)
  case 0
  then show ?case by simp
next
  case (Suc n)
  then show ?case
    by (cases "d < b ! n") (auto simp: less_Suc_eq)
qed

lemma find_position_below:
  "sorted b \<Longrightarrow> n \<le> length b \<Longrightarrow> i < find_position d b n \<Longrightarrow> b ! i \<le> d"
proof (induction n)
  case 0
  then show ?case by simp
next
  case (Suc n)
  show ?case
  proof (cases "d < b ! n")
    case True
    with Suc show ?thesis by simp
  next
    case False
    with Suc.prems have "i \<le> n" "n < length b" by auto
    with Suc.prems(1) have "b ! i \<le> b ! n" by (simp add: sorted_nth_mono)
    with False show ?thesis by simp
  qed
qed

lemma find_position_unique:
  assumes "p \<le> n" "\<And>i. i < p \<Longrightarrow> b ! i \<le> d" "\<And>i. p \<le> i \<Longrightarrow> i < n \<Longrightarrow> d < b ! i"
  shows "find_position d b n = p"
  using assms
proof (induction n)
  case 0
  then show ?case by simp
next
  case (Suc n)
  show ?case
  proof (cases "p = Suc n")
    case True
    with Suc.prems(2) [of n] show ?thesis by simp
  next
    case False
    with Suc.prems have "p \<le> n" by simp
    moreover from this Suc.prems(3) [of n] have "d < b ! n" by simp
    ultimately show ?thesis using Suc by simp
  qed
qed

lemma shift_right_length: "length (shift_right b idx j) = length b"
  by (induction j arbitrary: b) auto

lemma shift_right_nth:
  "j < length b \<Longrightarrow> i < length b \<Longrightarrow>
     shift_right b idx j ! i = (if idx < i \<and> i \<le> j then b ! (i - 1) else b ! i)"
proof (induction j arbitrary: b)
  case 0
  then show ?case by simp
next
  case (Suc j)
  show ?case
  proof (cases "Suc j > idx")
    case True
    have "shift_right b idx (Suc j) ! i = shift_right (b[Suc j := b ! j]) idx j ! i"
      using True by simp
    also have "\<dots> = (if idx < i \<and> i \<le> j then (b[Suc j := b ! j]) ! (i - 1)
                     else (b[Suc j := b ! j]) ! i)"
      using Suc.prems by (intro Suc.IH) auto
    also have "\<dots> = (if idx < i \<and> i \<le> Suc j then b ! (i - 1) else b ! i)"
      using Suc.prems True by (auto simp: nth_list_update)
    finally show ?thesis .
  next
    case False
    then show ?thesis by auto
  qed
qed

lemma insert_distance_length: "length (insert_distance b d) = length b"
  by (simp add: insert_distance_def Let_def shift_right_length)

lemma insert_distance_nth:
  assumes "i < length b"
  shows "insert_distance b d ! i =
           (let p = find_position d b (length b)
            in if i < p then b ! i else if i = p then d else b ! (i - 1))"
proof -
  let ?p = "find_position d b (length b)"
  have le: "?p \<le> length b" by (rule find_position_le)
  show ?thesis
  proof (cases "?p < length b")
    case True
    then show ?thesis
      using assms
      by (auto simp: insert_distance_def Let_def nth_list_update shift_right_length
            shift_right_nth)
  next
    case False
    with le assms show ?thesis
      by (auto simp: insert_distance_def Let_def)
  qed
qed

lemma insert_distance_sorted:
  assumes "sorted b"
  shows "sorted (insert_distance b d)"
proof -
  let ?p = "find_position d b (length b)"
  have below: "\<And>i. i < ?p \<Longrightarrow> b ! i \<le> d"
    using assms by (rule find_position_below) auto
  have above: "\<And>i. ?p \<le> i \<Longrightarrow> i < length b \<Longrightarrow> d < b ! i"
    by (rule find_position_above)
  have mono: "\<And>i j. i \<le> j \<Longrightarrow> j < length b \<Longrightarrow> b ! i \<le> b ! j"
    using assms by (simp add: sorted_nth_mono)
  show ?thesis
    unfolding sorted_iff_nth_mono insert_distance_length
  proof (intro allI impI)
    fix i j
    assume ij: "i \<le> j" and j: "j < length b"
    then have i: "i < length b" by simp
    consider "j < ?p" | "j = ?p" | "?p < j" "i < ?p" | "?p < j" "i = ?p" | "?p < j" "?p < i"
      by linarith
    then show "insert_distance b d ! i \<le> insert_distance b d ! j"
    proof cases
      case 1
      with ij i j show ?thesis by (simp add: insert_distance_nth Let_def mono)
    next
      case 2
      with ij i j show ?thesis by (auto simp: insert_distance_nth Let_def below)
    next
      case 3
      with ij i j show ?thesis by (simp add: insert_distance_nth Let_def mono)
    next
      case 4
      with j have "d < b ! (j - 1)" by (intro above) auto
      with 4 ij i j show ?thesis
        by (simp add: insert_distance_nth Let_def)
    next
      case 5
      with ij i j mono [of "i - 1" "j - 1"] show ?thesis
        by (simp add: insert_distance_nth Let_def)
    qed
  qed
qed

lemma insert_distance_set: "set (insert_distance b d) \<subseteq> insert d (set b)"
proof
  fix x assume "x \<in> set (insert_distance b d)"
  then obtain i where i: "i < length b" and x: "x = insert_distance b d ! i"
    by (auto simp: in_set_conv_nth insert_distance_length)
  then show "x \<in> insert d (set b)"
    by (auto simp: insert_distance_nth Let_def)
qed

lemma insert_distance_take:
  assumes "sorted b'" "m \<le> length b'"
  shows "take m (insert_distance b' d) = insert_distance (take m b') d"
proof (rule nth_equalityI)
  show "length (take m (insert_distance b' d)) = length (insert_distance (take m b') d)"
    using assms by (simp add: insert_distance_length)
next
  let ?p' = "find_position d b' (length b')"
  let ?b = "take m b'"
  have below: "\<And>i. i < ?p' \<Longrightarrow> b' ! i \<le> d"
    using assms(1) by (rule find_position_below) auto
  have above: "\<And>i. ?p' \<le> i \<Longrightarrow> i < length b' \<Longrightarrow> d < b' ! i"
    by (rule find_position_above)
  have p: "find_position d ?b (length ?b) = min ?p' m"
  proof (rule find_position_unique)
    show "min ?p' m \<le> length ?b" using assms by simp
  next
    fix i assume "i < min ?p' m"
    then show "?b ! i \<le> d" using below by simp
  next
    fix i assume "min ?p' m \<le> i" "i < length ?b"
    then show "d < ?b ! i" using above [of i] assms by auto
  qed
  fix i assume "i < length (take m (insert_distance b' d))"
  then have i: "i < m" "i < length b'" by (simp_all add: insert_distance_length)
  then show "take m (insert_distance b' d) ! i = insert_distance ?b d ! i"
    using assms p by (auto simp: insert_distance_nth Let_def)
qed


lemma DBL_MAX_nonneg: "0 \<le> DBL_MAX"
proof -
  have "(2::real) ^ 971 \<le> 2 ^ 1024" by (rule power_increasing) simp_all
  then show ?thesis by (simp add: DBL_MAX_def)
qed

lemma scan_neighbors_total:
  "\<forall>n \<in> set ns. n < length (distances ! point)
     \<Longrightarrow> \<exists>r. scan_neighbors distances point ns b = Inr r"
  by (induction ns arbitrary: b) (auto simp: vec_get_def in_range_def)

lemma scan_neighbors_length:
  "scan_neighbors distances point ns b = Inr r \<Longrightarrow> length r = length b"
  by (induction ns arbitrary: b)
     (auto simp: insert_distance_length split: if_splits sum.splits)

lemma scan_neighbors_prefix:
  "scan_neighbors distances point ns (take m b) = Inr r1
     \<Longrightarrow> scan_neighbors distances point ns b = Inr r2
     \<Longrightarrow> sorted b \<Longrightarrow> m \<le> length b
     \<Longrightarrow> r1 = take m r2 \<and> sorted r2"
proof (induction ns arbitrary: b)
  case Nil
  then show ?case by simp
next
  case (Cons n ns)
  show ?case
  proof (cases "point = n")
    case True
    with Cons.prems Cons.IH [of b] show ?thesis by simp
  next
    case False
    with Cons.prems(2) obtain d where
      d: "vec_get (distances ! point) (int n) = Inr d"
      and r2: "scan_neighbors distances point ns (insert_distance b d) = Inr r2"
      by (auto split: sum.splits)
    from False Cons.prems(1) d
    have "scan_neighbors distances point ns (insert_distance (take m b) d) = Inr r1"
      by simp
    then have r1: "scan_neighbors distances point ns (take m (insert_distance b d)) = Inr r1"
      using Cons.prems(3,4) by (simp add: insert_distance_take)
    show ?thesis
      using r1 r2
    proof (rule Cons.IH)
      show "sorted (insert_distance b d)"
        using Cons.prems(3) by (rule insert_distance_sorted)
      show "m \<le> length (insert_distance b d)"
        using Cons.prems(4) by (simp add: insert_distance_length)
    qed
  qed
qed

lemma scan_neighbors_nonneg:
  "scan_neighbors distances point ns b = Inr r
     \<Longrightarrow> \<forall>x \<in> set b. 0 \<le> x
     \<Longrightarrow> \<forall>x \<in> set (distances ! point). 0 \<le> x
     \<Longrightarrow> \<forall>x \<in> set r. 0 \<le> x"
proof (induction ns arbitrary: b)
  case Nil
  then show ?case by simp
next
  case (Cons n ns)
  show ?case
  proof (cases "point = n")
    case True
    with Cons.prems Cons.IH [of b] show ?thesis by simp
  next
    case False
    with Cons.prems(1) obtain d where
      d: "vec_get (distances ! point) (int n) = Inr d"
      and r: "scan_neighbors distances point ns (insert_distance b d) = Inr r"
      by (auto split: sum.splits)
    from d have "d \<in> set (distances ! point)"
      by (auto simp: vec_get_def in_range_def split: if_splits)
    with Cons.prems(3) have "0 \<le> d" by blast
    with Cons.prems(2) insert_distance_set [of b d]
    have "\<forall>x \<in> set (insert_distance b d). 0 \<le> x" by auto
    from Cons.IH [OF r this Cons.prems(3)] show ?thesis .
  qed
qed

text \<open>What the loop over the points writes.\<close>

lemma core_distances_loop_result:
  "\<forall>p \<in> set ps. p < length cd \<and> core_distance distances nn p = Inr (f p)
     \<Longrightarrow> \<exists>cd'. core_distances_loop distances nn ps cd = Inr cd' \<and> length cd' = length cd
            \<and> (\<forall>p \<in> set ps. cd' ! p = f p)
            \<and> (\<forall>q. q \<notin> set ps \<longrightarrow> cd' ! q = cd ! q)"
proof (induction ps arbitrary: cd)
  case Nil
  then show ?case by simp
next
  case (Cons p ps)
  let ?cd1 = "cd[p := f p]"
  from Cons.prems have "\<forall>q \<in> set ps. q < length ?cd1 \<and> core_distance distances nn q = Inr (f q)"
    by simp
  from Cons.IH [OF this] obtain cd' where
    loop: "core_distances_loop distances nn ps ?cd1 = Inr cd'"
    and len: "length cd' = length ?cd1"
    and inside: "\<forall>q \<in> set ps. cd' ! q = f q"
    and outside: "\<forall>q. q \<notin> set ps \<longrightarrow> cd' ! q = ?cd1 ! q"
    by blast
  from Cons.prems have p: "p < length cd" "core_distance distances nn p = Inr (f p)"
    by simp_all
  have "cd' ! p = f p"
  proof (cases "p \<in> set ps")
    case True
    with inside show ?thesis by blast
  next
    case False
    with outside p show ?thesis by simp
  qed
  with loop len inside outside p show ?case
    by (auto simp: nth_list_update)
qed

text \<open>The core distance of one point for \<open>k \<ge> 2\<close>, and its monotonicity in \<open>k\<close>.\<close>

lemma distance_matrix_row:
  "distance_matrix distances \<Longrightarrow> p < length distances
     \<Longrightarrow> length (distances ! p) = length distances \<and> (\<forall>x \<in> set (distances ! p). 0 \<le> x)"
  by (auto simp: distance_matrix_def list_all_length in_set_conv_nth)

lemma core_distance_total:
  assumes "distance_matrix distances" "p < length distances" "1 \<le> nn"
  shows "\<exists>r. scan_neighbors distances p [0..<length distances] (replicate (nat nn) DBL_MAX) = Inr r
            \<and> length r = nat nn \<and> core_distance distances nn p = Inr (r ! nat (nn - 1))"
proof -
  from distance_matrix_row [OF assms(1,2)]
  have "\<forall>n \<in> set [0..<length distances]. n < length (distances ! p)" by simp
  from scan_neighbors_total [OF this] obtain r where
    r: "scan_neighbors distances p [0..<length distances] (replicate (nat nn) DBL_MAX) = Inr r"
    by blast
  from scan_neighbors_length [OF r] have len: "length r = nat nn" by simp
  with r assms(3) show ?thesis
    by (auto simp: core_distance_def vec_get_def in_range_def)
qed

lemma core_distance_mono:
  assumes "distance_matrix distances" "p < length distances" "1 \<le> nn1" "nn1 \<le> nn2"
    and "core_distance distances nn1 p = Inr d1" "core_distance distances nn2 p = Inr d2"
  shows "d1 \<le> d2"
proof -
  let ?b2 = "replicate (nat nn2) DBL_MAX"
  from core_distance_total [OF assms(1,2,3)] assms(5) obtain r1 where
    r1: "scan_neighbors distances p [0..<length distances] (replicate (nat nn1) DBL_MAX) = Inr r1"
    and d1: "d1 = r1 ! nat (nn1 - 1)" by auto
  from assms(3,4) have "1 \<le> nn2" by simp
  from core_distance_total [OF assms(1,2) this] assms(6) obtain r2 where
    r2: "scan_neighbors distances p [0..<length distances] ?b2 = Inr r2"
    and l2: "length r2 = nat nn2"
    and d2: "d2 = r2 ! nat (nn2 - 1)" by auto
  from assms(3,4) have "replicate (nat nn1) DBL_MAX = take (nat nn1) ?b2"
    by (simp add: min_def)
  with r1 have "scan_neighbors distances p [0..<length distances] (take (nat nn1) ?b2) = Inr r1"
    by simp
  from scan_neighbors_prefix [OF this r2] assms(3,4)
  have pre: "r1 = take (nat nn1) r2" and srt: "sorted r2"
    by (simp_all add: sorted_replicate)
  from pre assms(3) have "d1 = r2 ! nat (nn1 - 1)"
    unfolding d1 by simp
  also from srt l2 assms(3,4) have "\<dots> \<le> r2 ! nat (nn2 - 1)"
    by (intro sorted_nth_mono) auto
  finally show ?thesis by (simp add: d2)
qed

lemma core_distance_nonneg:
  assumes "distance_matrix distances" "p < length distances" "1 \<le> nn"
    and "core_distance distances nn p = Inr d"
  shows "0 \<le> d"
proof -
  from core_distance_total [OF assms(1,2,3)] assms(4) obtain r where
    r: "scan_neighbors distances p [0..<length distances] (replicate (nat nn) DBL_MAX) = Inr r"
    and len: "length r = nat nn"
    and d: "d = r ! nat (nn - 1)" by auto
  from distance_matrix_row [OF assms(1,2)] have "\<forall>x \<in> set (distances ! p). 0 \<le> x" by simp
  with scan_neighbors_nonneg [OF r] have "\<forall>x \<in> set r. 0 \<le> x"
    by (simp add: DBL_MAX_nonneg)
  moreover from len assms(3) have "r ! nat (nn - 1) \<in> set r" by (intro nth_mem) auto
  ultimately show ?thesis by (simp add: d)
qed

lemma calculateCoreDistances_one:
  "calculateCoreDistances distances 1 = Inr (replicate (length distances) 0)"
  by (simp add: calculateCoreDistances_def)

lemma calculateCoreDistances_total:
  assumes "distance_matrix distances" "2 \<le> k"
  shows "\<exists>c. calculateCoreDistances distances k = Inr c \<and> length c = length distances
           \<and> (\<forall>p < length distances. core_distance distances (k - 1) p = Inr (c ! p))"
proof -
  define f where
    "f p = (case core_distance distances (k - 1) p of Inr d \<Rightarrow> d | Inl e \<Rightarrow> 0)" for p
  have all: "\<forall>p \<in> set [0..<length distances].
          p < length (replicate (length distances) (0::real))
          \<and> core_distance distances (k - 1) p = Inr (f p)"
  proof
    fix p assume "p \<in> set [0..<length distances]"
    then have p: "p < length distances" by simp
    from assms(2) have "1 \<le> k - 1" by simp
    from core_distance_total [OF assms(1) p this]
    show "p < length (replicate (length distances) (0::real))
          \<and> core_distance distances (k - 1) p = Inr (f p)"
      using p by (auto simp: f_def)
  qed
  from core_distances_loop_result [OF all] obtain c where
    c: "core_distances_loop distances (k - 1) [0..<length distances]
          (replicate (length distances) 0) = Inr c"
       "length c = length distances" "\<forall>p \<in> set [0..<length distances]. c ! p = f p"
    by auto
  from all c(3) have "\<forall>p < length distances. core_distance distances (k - 1) p = Inr (c ! p)"
    by simp
  with c(1,2) assms(2) show ?thesis
    by (simp add: calculateCoreDistances_def Let_def)
qed

text \<open>
  C9: for a distance matrix (square, no negative entry) and \<open>1 \<le> k1 \<le> k2\<close>, both calls
  return one core distance per point, the core distance of every point for \<open>k1\<close> is at
  most the one for \<open>k2\<close>, and for \<open>k = 1\<close> every core distance is 0.
\<close>

theorem calculateCoreDistances_monotone:
  assumes "distance_matrix distances" "1 \<le> k1" "k1 \<le> k2"
  shows "\<exists>c1 c2. calculateCoreDistances distances k1 = Inr c1
                \<and> calculateCoreDistances distances k2 = Inr c2
                \<and> length c1 = length distances \<and> length c2 = length distances
                \<and> (\<forall>p < length distances. c1 ! p \<le> c2 ! p)
                \<and> calculateCoreDistances distances 1 = Inr (replicate (length distances) 0)"
proof (cases "k2 = 1")
  case True
  with assms show ?thesis by (simp add: calculateCoreDistances_one)
next
  case False
  with assms have k2: "2 \<le> k2" by simp
  from calculateCoreDistances_total [OF assms(1) k2] obtain c2 where
    c2: "calculateCoreDistances distances k2 = Inr c2" "length c2 = length distances"
        "\<forall>p < length distances. core_distance distances (k2 - 1) p = Inr (c2 ! p)"
    by blast
  show ?thesis
  proof (cases "k1 = 1")
    case True
    have "\<forall>p < length distances. 0 \<le> c2 ! p"
    proof (intro allI impI)
      fix p assume p: "p < length distances"
      from k2 have "1 \<le> k2 - 1" by simp
      from core_distance_nonneg [OF assms(1) p this] c2(3) p show "0 \<le> c2 ! p" by blast
    qed
    with True c2 show ?thesis by (simp add: calculateCoreDistances_one)
  next
    case False
    with assms have k1: "2 \<le> k1" by simp
    from calculateCoreDistances_total [OF assms(1) k1] obtain c1 where
      c1: "calculateCoreDistances distances k1 = Inr c1" "length c1 = length distances"
          "\<forall>p < length distances. core_distance distances (k1 - 1) p = Inr (c1 ! p)"
      by blast
    have "\<forall>p < length distances. c1 ! p \<le> c2 ! p"
    proof (intro allI impI)
      fix p assume p: "p < length distances"
      from k1 assms(3) have "1 \<le> k1 - 1" "k1 - 1 \<le> k2 - 1" by simp_all
      from core_distance_mono [OF assms(1) p this] c1(3) c2(3) p
      show "c1 ! p \<le> c2 ! p" by blast
    qed
    with c1 c2 show ?thesis by (simp add: calculateCoreDistances_one)
  qed
qed

theorem calculateCoreDistances_monotone_witness:
  "distance_matrix [[0, 1, 3], [1, 0, 2], [3, 2, 0]] \<and> (1::int) \<le> 2 \<and> (2::int) \<le> 3
   \<and> calculateCoreDistances [[0, 1, 3], [1, 0, 2], [3, 2, 0]] 2 = Inr [1, 1, 2]
   \<and> calculateCoreDistances [[0, 1, 3], [1, 0, 2], [3, 2, 0]] 3 = Inr [3, 2, 3]
   \<and> (\<exists>c1 c2. calculateCoreDistances [[0, 1, 3], [1, 0, 2], [3, 2, 0]] 2 = Inr c1
          \<and> calculateCoreDistances [[0, 1, 3], [1, 0, 2], [3, 2, 0]] 3 = Inr c2
          \<and> length c1 = 3 \<and> length c2 = 3
          \<and> (\<forall>p < 3. c1 ! p \<le> c2 ! p)
          \<and> calculateCoreDistances [[0, 1, 3], [1, 0, 2], [3, 2, 0]] 1 = Inr [0, 0, 0])"
proof -
  have m: "distance_matrix [[0, 1, 3], [1, 0, 2], [3, 2, 0]]"
    by (simp add: distance_matrix_def)
  have k: "(1::int) \<le> 2" "(2::int) \<le> 3" by simp_all
  have two: "calculateCoreDistances [[0, 1, 3], [1, 0, 2], [3, 2, 0]] 2 = Inr [1, 1, 2]"
    by (simp add: calculateCoreDistances_def core_distance_def vec_get_def in_range_def
          insert_distance_def DBL_MAX_def Let_def upt_rec numeral_2_eq_2 numeral_3_eq_3)
  have three: "calculateCoreDistances [[0, 1, 3], [1, 0, 2], [3, 2, 0]] 3 = Inr [3, 2, 3]"
    by (simp add: calculateCoreDistances_def core_distance_def vec_get_def in_range_def
          insert_distance_def DBL_MAX_def Let_def upt_rec numeral_2_eq_2 numeral_3_eq_3)
  from calculateCoreDistances_monotone [OF m k] m k two three show ?thesis
    by (simp add: numeral_3_eq_3)
qed

section \<open>Properties of constructMst\<close>

lemma scan_unattached_append:
  "scan_unattached ds cs att cur (xs @ ys) s =
     (case scan_unattached ds cs att cur xs s of
        Inl e \<Rightarrow> Inl e
      | Inr s' \<Rightarrow> scan_unattached ds cs att cur ys s')"
  by (induction xs arbitrary: s) (auto split: sum.splits)

lemma update_neighbor_skip:
  "cur = j \<or> j \<in> att \<Longrightarrow> update_neighbor ds cs att cur s j = Inr s"
  by (auto simp: update_neighbor_def)

lemma update_neighbor_candidate:
  assumes "cur \<noteq> j" "j \<notin> att" "cur < length ds" "j < length (ds ! cur)"
    "cur < length cs" "j < length cs" "j < length (nearestMRDDistances s)"
    "j < length (nearestMRDNeighbors s)"
  shows "update_neighbor ds cs att cur s j =
     Inr \<lparr> nearestMRDNeighbors =
             (if mutualReachabilityDistance ds cs cur j < nearestMRDDistances s ! j
              then (nearestMRDNeighbors s)[j := cur] else nearestMRDNeighbors s),
           nearestMRDDistances =
             (if mutualReachabilityDistance ds cs cur j < nearestMRDDistances s ! j
              then (nearestMRDDistances s)[j := mutualReachabilityDistance ds cs cur j]
              else nearestMRDDistances s),
           nearestMRDPoint =
             (if min (mutualReachabilityDistance ds cs cur j) (nearestMRDDistances s ! j)
                   \<le> nearestMRDDistance s
              then int j else nearestMRDPoint s),
           nearestMRDDistance =
             (if min (mutualReachabilityDistance ds cs cur j) (nearestMRDDistances s ! j)
                   \<le> nearestMRDDistance s
              then min (mutualReachabilityDistance ds cs cur j) (nearestMRDDistances s ! j)
              else nearestMRDDistance s) \<rparr>"
  using assms by (auto simp: update_neighbor_def Let_def min_def)

lemma scan_unattached_result:
  assumes "cur < length ds" "cur < length cs"
    and "\<forall>j<n. j \<noteq> cur \<and> j \<notin> att \<longrightarrow>
            j < length (ds ! cur) \<and> j < length cs \<and> j < length D0 \<and> j < length N0"
  shows "\<exists>s. scan_unattached ds cs att cur [0..<n]
               \<lparr> nearestMRDNeighbors = N0, nearestMRDDistances = D0,
                 nearestMRDPoint = - 1, nearestMRDDistance = B \<rparr> = Inr s
     \<and> length (nearestMRDDistances s) = length D0
     \<and> length (nearestMRDNeighbors s) = length N0
     \<and> (\<forall>j. nearestMRDDistances s ! j =
             (if j < n \<and> j \<noteq> cur \<and> j \<notin> att \<and> mutualReachabilityDistance ds cs cur j < D0 ! j
              then mutualReachabilityDistance ds cs cur j else D0 ! j))
     \<and> (\<forall>j. nearestMRDNeighbors s ! j =
             (if j < n \<and> j \<noteq> cur \<and> j \<notin> att \<and> mutualReachabilityDistance ds cs cur j < D0 ! j
              then cur else N0 ! j))
     \<and> ((nearestMRDPoint s = - 1 \<and> nearestMRDDistance s = B
          \<and> (\<forall>j<n. j \<noteq> cur \<and> j \<notin> att \<longrightarrow> B < nearestMRDDistances s ! j))
        \<or> (\<exists>p<n. nearestMRDPoint s = int p \<and> p \<noteq> cur \<and> p \<notin> att
              \<and> nearestMRDDistance s = nearestMRDDistances s ! p
              \<and> nearestMRDDistances s ! p \<le> B
              \<and> (\<forall>j<n. j \<noteq> cur \<and> j \<notin> att \<longrightarrow>
                     nearestMRDDistances s ! p \<le> nearestMRDDistances s ! j)
              \<and> (\<forall>j<n. j \<noteq> cur \<and> j \<notin> att
                     \<and> nearestMRDDistances s ! j = nearestMRDDistances s ! p \<longrightarrow> j \<le> p)))"
  using assms(3)
proof (induction n)
  case 0
  then show ?case by simp
next
  case (Suc n)
  let ?m = "mutualReachabilityDistance ds cs cur"
  from Suc.prems have "\<forall>j<n. j \<noteq> cur \<and> j \<notin> att \<longrightarrow>
            j < length (ds ! cur) \<and> j < length cs \<and> j < length D0 \<and> j < length N0"
    by simp
  from Suc.IH [OF this] obtain s where
    run: "scan_unattached ds cs att cur [0..<n]
               \<lparr> nearestMRDNeighbors = N0, nearestMRDDistances = D0,
                 nearestMRDPoint = - 1, nearestMRDDistance = B \<rparr> = Inr s"
    and lenD: "length (nearestMRDDistances s) = length D0"
    and lenN: "length (nearestMRDNeighbors s) = length N0"
    and D: "\<And>j. nearestMRDDistances s ! j =
             (if j < n \<and> j \<noteq> cur \<and> j \<notin> att \<and> ?m j < D0 ! j then ?m j else D0 ! j)"
    and N: "\<And>j. nearestMRDNeighbors s ! j =
             (if j < n \<and> j \<noteq> cur \<and> j \<notin> att \<and> ?m j < D0 ! j then cur else N0 ! j)"
    and sel: "(nearestMRDPoint s = - 1 \<and> nearestMRDDistance s = B
          \<and> (\<forall>j<n. j \<noteq> cur \<and> j \<notin> att \<longrightarrow> B < nearestMRDDistances s ! j))
        \<or> (\<exists>p<n. nearestMRDPoint s = int p \<and> p \<noteq> cur \<and> p \<notin> att
              \<and> nearestMRDDistance s = nearestMRDDistances s ! p
              \<and> nearestMRDDistances s ! p \<le> B
              \<and> (\<forall>j<n. j \<noteq> cur \<and> j \<notin> att \<longrightarrow>
                     nearestMRDDistances s ! p \<le> nearestMRDDistances s ! j)
              \<and> (\<forall>j<n. j \<noteq> cur \<and> j \<notin> att
                     \<and> nearestMRDDistances s ! j = nearestMRDDistances s ! p \<longrightarrow> j \<le> p))"
    by blast
  have split: "scan_unattached ds cs att cur [0..<Suc n]
               \<lparr> nearestMRDNeighbors = N0, nearestMRDDistances = D0,
                 nearestMRDPoint = - 1, nearestMRDDistance = B \<rparr>
             = update_neighbor ds cs att cur s n"
    by (simp add: scan_unattached_append run split: sum.splits)
  show ?case
  proof (cases "cur = n \<or> n \<in> att")
    case True
    then have "update_neighbor ds cs att cur s n = Inr s" by (rule update_neighbor_skip)
    with split have res: "scan_unattached ds cs att cur [0..<Suc n]
               \<lparr> nearestMRDNeighbors = N0, nearestMRDDistances = D0,
                 nearestMRDPoint = - 1, nearestMRDDistance = B \<rparr> = Inr s" by simp
    have D': "\<forall>j. nearestMRDDistances s ! j =
             (if j < Suc n \<and> j \<noteq> cur \<and> j \<notin> att \<and> ?m j < D0 ! j then ?m j else D0 ! j)"
      using True D by (auto simp: less_Suc_eq)
    have N': "\<forall>j. nearestMRDNeighbors s ! j =
             (if j < Suc n \<and> j \<noteq> cur \<and> j \<notin> att \<and> ?m j < D0 ! j then cur else N0 ! j)"
      using True N by (auto simp: less_Suc_eq)
    from sel have sel': "(nearestMRDPoint s = - 1 \<and> nearestMRDDistance s = B
          \<and> (\<forall>j<Suc n. j \<noteq> cur \<and> j \<notin> att \<longrightarrow> B < nearestMRDDistances s ! j))
        \<or> (\<exists>p<Suc n. nearestMRDPoint s = int p \<and> p \<noteq> cur \<and> p \<notin> att
              \<and> nearestMRDDistance s = nearestMRDDistances s ! p
              \<and> nearestMRDDistances s ! p \<le> B
              \<and> (\<forall>j<Suc n. j \<noteq> cur \<and> j \<notin> att \<longrightarrow>
                     nearestMRDDistances s ! p \<le> nearestMRDDistances s ! j)
              \<and> (\<forall>j<Suc n. j \<noteq> cur \<and> j \<notin> att
                     \<and> nearestMRDDistances s ! j = nearestMRDDistances s ! p \<longrightarrow> j \<le> p))"
    proof (elim disjE exE conjE)
      assume "nearestMRDPoint s = - 1" "nearestMRDDistance s = B"
        "\<forall>j<n. j \<noteq> cur \<and> j \<notin> att \<longrightarrow> B < nearestMRDDistances s ! j"
      with True show ?thesis by (auto simp: less_Suc_eq)
    next
      fix p
      assume p: "p < n" "nearestMRDPoint s = int p" "p \<noteq> cur" "p \<notin> att"
        "nearestMRDDistance s = nearestMRDDistances s ! p"
        "nearestMRDDistances s ! p \<le> B"
        "\<forall>j<n. j \<noteq> cur \<and> j \<notin> att \<longrightarrow> nearestMRDDistances s ! p \<le> nearestMRDDistances s ! j"
        "\<forall>j<n. j \<noteq> cur \<and> j \<notin> att
             \<and> nearestMRDDistances s ! j = nearestMRDDistances s ! p \<longrightarrow> j \<le> p"
      show ?thesis
        apply (rule disjI2)
        apply (rule exI [of _ p])
        using p True by (auto simp: less_Suc_eq)
    qed
    from res lenD lenN D' N' sel' show ?thesis by blast
  next
    case False
    then have cand: "cur \<noteq> n" "n \<notin> att" by auto
    with Suc.prems have rng: "n < length (ds ! cur)" "n < length cs" "n < length D0"
      "n < length N0" by auto
    let ?d = "min (?m n) (D0 ! n)"
    let ?s' = "\<lparr> nearestMRDNeighbors =
             (if ?m n < nearestMRDDistances s ! n
              then (nearestMRDNeighbors s)[n := cur] else nearestMRDNeighbors s),
           nearestMRDDistances =
             (if ?m n < nearestMRDDistances s ! n
              then (nearestMRDDistances s)[n := ?m n]
              else nearestMRDDistances s),
           nearestMRDPoint =
             (if min (?m n) (nearestMRDDistances s ! n) \<le> nearestMRDDistance s
              then int n else nearestMRDPoint s),
           nearestMRDDistance =
             (if min (?m n) (nearestMRDDistances s ! n) \<le> nearestMRDDistance s
              then min (?m n) (nearestMRDDistances s ! n)
              else nearestMRDDistance s) \<rparr>"
    have "update_neighbor ds cs att cur s n = Inr ?s'"
      using cand assms(1,2) rng lenD lenN
      by (intro update_neighbor_candidate) simp_all
    with split have res: "scan_unattached ds cs att cur [0..<Suc n]
               \<lparr> nearestMRDNeighbors = N0, nearestMRDDistances = D0,
                 nearestMRDPoint = - 1, nearestMRDDistance = B \<rparr> = Inr ?s'" by simp
    have Dn: "nearestMRDDistances s ! n = D0 ! n" using D [of n] by simp
    have lenD': "length (nearestMRDDistances ?s') = length D0" using lenD by simp
    have lenN': "length (nearestMRDNeighbors ?s') = length N0" using lenN by simp
    have D': "\<forall>j. nearestMRDDistances ?s' ! j =
             (if j < Suc n \<and> j \<noteq> cur \<and> j \<notin> att \<and> ?m j < D0 ! j then ?m j else D0 ! j)"
      using cand D Dn rng lenD by (auto simp: less_Suc_eq nth_list_update)
    have N': "\<forall>j. nearestMRDNeighbors ?s' ! j =
             (if j < Suc n \<and> j \<noteq> cur \<and> j \<notin> att \<and> ?m j < D0 ! j then cur else N0 ! j)"
      using cand N Dn rng lenN by (auto simp: less_Suc_eq nth_list_update)
    have Dold: "\<And>j. j < n \<Longrightarrow> nearestMRDDistances ?s' ! j = nearestMRDDistances s ! j"
      by (auto simp: nth_list_update)
    have Dnew: "nearestMRDDistances ?s' ! n = ?d"
      using Dn rng lenD by (auto simp: min_def)
    have mind: "min (?m n) (nearestMRDDistances s ! n) = ?d" using Dn by simp
    have sel': "(nearestMRDPoint ?s' = - 1 \<and> nearestMRDDistance ?s' = B
          \<and> (\<forall>j<Suc n. j \<noteq> cur \<and> j \<notin> att \<longrightarrow> B < nearestMRDDistances ?s' ! j))
        \<or> (\<exists>p<Suc n. nearestMRDPoint ?s' = int p \<and> p \<noteq> cur \<and> p \<notin> att
              \<and> nearestMRDDistance ?s' = nearestMRDDistances ?s' ! p
              \<and> nearestMRDDistances ?s' ! p \<le> B
              \<and> (\<forall>j<Suc n. j \<noteq> cur \<and> j \<notin> att \<longrightarrow>
                     nearestMRDDistances ?s' ! p \<le> nearestMRDDistances ?s' ! j)
              \<and> (\<forall>j<Suc n. j \<noteq> cur \<and> j \<notin> att
                     \<and> nearestMRDDistances ?s' ! j = nearestMRDDistances ?s' ! p \<longrightarrow> j \<le> p))"
      using sel
    proof (elim disjE exE conjE)
      assume none: "nearestMRDPoint s = - 1" "nearestMRDDistance s = B"
        "\<forall>j<n. j \<noteq> cur \<and> j \<notin> att \<longrightarrow> B < nearestMRDDistances s ! j"
      show ?thesis
      proof (cases "?d \<le> B")
        case True
        have "nearestMRDPoint ?s' = int n" "nearestMRDDistance ?s' = ?d"
          using True none mind by simp_all
        moreover have "\<forall>j<Suc n. j \<noteq> cur \<and> j \<notin> att \<longrightarrow> ?d \<le> nearestMRDDistances ?s' ! j"
          using none(3) True Dold Dnew by (auto simp: less_Suc_eq simp del: mst_scan.simps)
        ultimately show ?thesis
          using cand Dnew True
          by (intro disjI2 exI [of _ n]) (auto simp del: mst_scan.simps)
      next
        case False
        have "nearestMRDPoint ?s' = - 1" "nearestMRDDistance ?s' = B"
          using False none mind by simp_all
        moreover have "\<forall>j<Suc n. j \<noteq> cur \<and> j \<notin> att \<longrightarrow> B < nearestMRDDistances ?s' ! j"
          using none(3) False Dold Dnew by (auto simp: less_Suc_eq simp del: mst_scan.simps)
        ultimately show ?thesis by blast
      qed
    next
      fix p
      assume p: "p < n" "nearestMRDPoint s = int p" "p \<noteq> cur" "p \<notin> att"
        "nearestMRDDistance s = nearestMRDDistances s ! p"
        "nearestMRDDistances s ! p \<le> B"
        "\<forall>j<n. j \<noteq> cur \<and> j \<notin> att \<longrightarrow> nearestMRDDistances s ! p \<le> nearestMRDDistances s ! j"
        "\<forall>j<n. j \<noteq> cur \<and> j \<notin> att
             \<and> nearestMRDDistances s ! j = nearestMRDDistances s ! p \<longrightarrow> j \<le> p"
      show ?thesis
      proof (cases "?d \<le> nearestMRDDistances s ! p")
        case True
        have "nearestMRDPoint ?s' = int n" "nearestMRDDistance ?s' = ?d"
          using True p(5) mind by simp_all
        moreover have "\<forall>j<Suc n. j \<noteq> cur \<and> j \<notin> att \<longrightarrow> ?d \<le> nearestMRDDistances ?s' ! j"
          using p(7) True Dold Dnew by (fastforce simp: less_Suc_eq simp del: mst_scan.simps)
        moreover have "?d \<le> B" using True p(6) by simp
        ultimately show ?thesis
          using cand Dnew
          by (intro disjI2 exI [of _ n]) (auto simp del: mst_scan.simps)
      next
        case False
        have P: "nearestMRDPoint ?s' = int p"
          and Best: "nearestMRDDistance ?s' = nearestMRDDistances s ! p"
          using False p(2,5) mind by simp_all
        have Dp: "nearestMRDDistances ?s' ! p = nearestMRDDistances s ! p"
          using Dold p(1) by blast
        have a: "\<forall>j<Suc n. j \<noteq> cur \<and> j \<notin> att \<longrightarrow>
                   nearestMRDDistances ?s' ! p \<le> nearestMRDDistances ?s' ! j"
          unfolding Dp using p(7) False Dold Dnew
          by (auto simp: less_Suc_eq simp del: mst_scan.simps)
        have b: "\<forall>j<Suc n. j \<noteq> cur \<and> j \<notin> att
                     \<and> nearestMRDDistances ?s' ! j = nearestMRDDistances ?s' ! p \<longrightarrow> j \<le> p"
          unfolding Dp using p(8) False Dold Dnew
          by (auto simp: less_Suc_eq simp del: mst_scan.simps)
        show ?thesis
          apply (rule disjI2)
          apply (rule exI [of _ p])
          using P Best Dp a b p(1,3,4,6) by (simp del: mst_scan.simps)
      qed
    qed
    from res lenD' lenN' D' N' sel' show ?thesis by blast
  qed
qed


lemma mst_input_row:
  "mst_input ds cs \<Longrightarrow> i < length ds \<Longrightarrow> length (ds ! i) = length ds \<and> length cs = length ds"
  by (auto simp: mst_input_def list_all_length)

lemma attach_nearest_round:
  assumes inp: "mst_input ds cs" and inv: "mst_invariant ds st"
    and more: "numAttachedPoints st < length ds"
  shows "\<exists>p st'. attach_nearest ds cs st = Inr st'
     \<and> p < length ds - 1 \<and> p \<notin> attachedPoints st
     \<and> attachedPoints st' = insert p (attachedPoints st)
     \<and> currentPoint st' = p
     \<and> numAttachedPoints st' = numAttachedPoints st + 1
     \<and> rounds st' = rounds st + 1
     \<and> length (neighbors st') = length (neighbors st)
     \<and> length (mrdDistances st') = length (mrdDistances st)
     \<and> (\<forall>j. mrdDistances st' ! j =
            (if j < length ds \<and> j \<notin> attachedPoints st
                \<and> mutualReachabilityDistance ds cs (currentPoint st) j < mrdDistances st ! j
             then mutualReachabilityDistance ds cs (currentPoint st) j
             else mrdDistances st ! j))
     \<and> (\<forall>j. neighbors st' ! j =
            (if j < length ds \<and> j \<notin> attachedPoints st
                \<and> mutualReachabilityDistance ds cs (currentPoint st) j < mrdDistances st ! j
             then currentPoint st else neighbors st ! j))
     \<and> (\<forall>j < length ds. j \<notin> attachedPoints st \<longrightarrow> mrdDistances st' ! p \<le> mrdDistances st' ! j)
     \<and> (\<forall>j < length ds. j \<notin> attachedPoints st \<and> mrdDistances st' ! j = mrdDistances st' ! p
            \<longrightarrow> j \<le> p)"
proof -
  let ?N = "length ds"
  let ?att = "attachedPoints st"
  let ?cur = "currentPoint st"
  from inv have shape: "?N - 1 \<le> length (neighbors st)"
      "length (mrdDistances st) = length (neighbors st)"
    and fin: "finite ?att" and sub: "\<forall>j \<in> ?att. j < ?N"
    and last: "?N - 1 \<in> ?att" and cur: "?cur \<in> ?att"
    and card: "card ?att = numAttachedPoints st"
    and bound: "\<forall>j < ?N - 1. mrdDistances st ! j \<le> DBL_MAX"
    by (simp_all add: mst_invariant_def)
  from cur sub have curN: "?cur < ?N" by blast
  have unatt: "\<And>j. j < ?N \<Longrightarrow> j \<notin> ?att \<Longrightarrow> j < ?N - 1 \<and> j \<noteq> ?cur"
  proof -
    fix j assume "j < ?N" "j \<notin> ?att"
    with last cur have "j \<noteq> ?N - 1" "j \<noteq> ?cur" by auto
    with \<open>j < ?N\<close> show "j < ?N - 1 \<and> j \<noteq> ?cur" by simp
  qed
  have ex: "\<exists>j < ?N. j \<notin> ?att"
  proof (rule ccontr)
    assume "\<not> (\<exists>j < ?N. j \<notin> ?att)"
    then have "{0..<?N} \<subseteq> ?att" by auto
    from card_mono [OF fin this] have "card {0..<?N} \<le> card ?att" .
    with card more show False by simp
  qed
  have rng: "\<forall>j<?N. j \<noteq> ?cur \<and> j \<notin> ?att \<longrightarrow>
            j < length (ds ! ?cur) \<and> j < length cs \<and> j < length (mrdDistances st)
            \<and> j < length (neighbors st)"
  proof (intro allI impI)
    fix j assume "j < ?N" "j \<noteq> ?cur \<and> j \<notin> ?att"
    with unatt have "j < ?N - 1" by blast
    with shape mst_input_row [OF inp curN] \<open>j < ?N\<close>
    show "j < length (ds ! ?cur) \<and> j < length cs \<and> j < length (mrdDistances st)
            \<and> j < length (neighbors st)" by simp
  qed
  from curN mst_input_row [OF inp curN] have curcs: "?cur < length cs" by simp
  from scan_unattached_result [OF curN curcs rng, where B = DBL_MAX]
  obtain s where
    run: "scan_unattached ds cs ?att ?cur [0..<?N]
               \<lparr> nearestMRDNeighbors = neighbors st, nearestMRDDistances = mrdDistances st,
                 nearestMRDPoint = - 1, nearestMRDDistance = DBL_MAX \<rparr> = Inr s"
    and lenD: "length (nearestMRDDistances s) = length (mrdDistances st)"
    and lenN: "length (nearestMRDNeighbors s) = length (neighbors st)"
    and D: "\<And>j. nearestMRDDistances s ! j =
             (if j < ?N \<and> j \<noteq> ?cur \<and> j \<notin> ?att
                 \<and> mutualReachabilityDistance ds cs ?cur j < mrdDistances st ! j
              then mutualReachabilityDistance ds cs ?cur j else mrdDistances st ! j)"
    and N: "\<And>j. nearestMRDNeighbors s ! j =
             (if j < ?N \<and> j \<noteq> ?cur \<and> j \<notin> ?att
                 \<and> mutualReachabilityDistance ds cs ?cur j < mrdDistances st ! j
              then ?cur else neighbors st ! j)"
    and sel: "(nearestMRDPoint s = - 1 \<and> nearestMRDDistance s = DBL_MAX
          \<and> (\<forall>j<?N. j \<noteq> ?cur \<and> j \<notin> ?att \<longrightarrow> DBL_MAX < nearestMRDDistances s ! j))
        \<or> (\<exists>p<?N. nearestMRDPoint s = int p \<and> p \<noteq> ?cur \<and> p \<notin> ?att
              \<and> nearestMRDDistance s = nearestMRDDistances s ! p
              \<and> nearestMRDDistances s ! p \<le> DBL_MAX
              \<and> (\<forall>j<?N. j \<noteq> ?cur \<and> j \<notin> ?att \<longrightarrow>
                     nearestMRDDistances s ! p \<le> nearestMRDDistances s ! j)
              \<and> (\<forall>j<?N. j \<noteq> ?cur \<and> j \<notin> ?att
                     \<and> nearestMRDDistances s ! j = nearestMRDDistances s ! p \<longrightarrow> j \<le> p))"
    by blast
  have small: "\<And>j. j < ?N \<Longrightarrow> j \<notin> ?att \<Longrightarrow> nearestMRDDistances s ! j \<le> DBL_MAX"
  proof -
    fix j assume j: "j < ?N" "j \<notin> ?att"
    with unatt bound have "mrdDistances st ! j \<le> DBL_MAX" by blast
    then show "nearestMRDDistances s ! j \<le> DBL_MAX" by (auto simp: D)
  qed
  from ex obtain j0 where j0: "j0 < ?N" "j0 \<notin> ?att" by blast
  with unatt small have "j0 \<noteq> ?cur" "nearestMRDDistances s ! j0 \<le> DBL_MAX" by blast+
  with j0 sel obtain p where p: "p < ?N" "nearestMRDPoint s = int p" "p \<noteq> ?cur" "p \<notin> ?att"
    and least: "\<forall>j<?N. j \<noteq> ?cur \<and> j \<notin> ?att \<longrightarrow>
                     nearestMRDDistances s ! p \<le> nearestMRDDistances s ! j"
    and tie: "\<forall>j<?N. j \<noteq> ?cur \<and> j \<notin> ?att
                     \<and> nearestMRDDistances s ! j = nearestMRDDistances s ! p \<longrightarrow> j \<le> p"
    by fastforce
  let ?st' = "\<lparr> neighbors = nearestMRDNeighbors s,
                     mrdDistances = nearestMRDDistances s,
                     attachedPoints = insert p ?att,
                     currentPoint = p,
                     numAttachedPoints = numAttachedPoints st + 1,
                     rounds = rounds st + 1 \<rparr>"
  have res: "attach_nearest ds cs st = Inr ?st'"
    by (simp add: attach_nearest_def run p(2) bitSet_set_def)
  have D': "\<forall>j. mrdDistances ?st' ! j =
            (if j < ?N \<and> j \<notin> ?att
                \<and> mutualReachabilityDistance ds cs ?cur j < mrdDistances st ! j
             then mutualReachabilityDistance ds cs ?cur j
             else mrdDistances st ! j)"
    using D unatt by auto
  have N': "\<forall>j. neighbors ?st' ! j =
            (if j < ?N \<and> j \<notin> ?att
                \<and> mutualReachabilityDistance ds cs ?cur j < mrdDistances st ! j
             then ?cur else neighbors st ! j)"
    using N unatt by auto
  have least': "\<forall>j < ?N. j \<notin> ?att \<longrightarrow> mrdDistances ?st' ! p \<le> mrdDistances ?st' ! j"
    using least unatt by auto
  have tie': "\<forall>j < ?N. j \<notin> ?att \<and> mrdDistances ?st' ! j = mrdDistances ?st' ! p \<longrightarrow> j \<le> p"
    using tie unatt by auto
  from unatt [OF p(1) p(4)] have p1: "p < ?N - 1" by simp
  show ?thesis
    apply (rule exI [of _ p])
    apply (rule exI [of _ ?st'])
    using res p1 p(4) lenD lenN D' N' least' tie' by simp
qed

lemma attach_nearest_invariant:
  assumes inp: "mst_input ds cs" and inv: "mst_invariant ds st"
    and more: "numAttachedPoints st < length ds"
  shows "\<exists>st'. attach_nearest ds cs st = Inr st' \<and> mst_invariant ds st'
           \<and> numAttachedPoints st' = numAttachedPoints st + 1"
proof -
  from attach_nearest_round [OF assms] obtain p st' where
    res: "attach_nearest ds cs st = Inr st'"
    and p: "p < length ds - 1" "p \<notin> attachedPoints st"
    and att: "attachedPoints st' = insert p (attachedPoints st)"
    and cur: "currentPoint st' = p"
    and num: "numAttachedPoints st' = numAttachedPoints st + 1"
    and rnd: "rounds st' = rounds st + 1"
    and len: "length (neighbors st') = length (neighbors st)"
       "length (mrdDistances st') = length (mrdDistances st)"
    and D: "\<forall>j. mrdDistances st' ! j =
            (if j < length ds \<and> j \<notin> attachedPoints st
                \<and> mutualReachabilityDistance ds cs (currentPoint st) j < mrdDistances st ! j
             then mutualReachabilityDistance ds cs (currentPoint st) j
             else mrdDistances st ! j)"
    by blast
  from inv have old: "length ds - 1 \<le> length (neighbors st)"
      "length (mrdDistances st) = length (neighbors st)"
      "finite (attachedPoints st)" "\<forall>j \<in> attachedPoints st. j < length ds"
      "length ds - 1 \<in> attachedPoints st"
      "card (attachedPoints st) = numAttachedPoints st"
      "rounds st + 1 = numAttachedPoints st"
      "\<forall>j < length ds - 1. mrdDistances st ! j \<le> DBL_MAX"
    by (simp_all add: mst_invariant_def)
  have bound: "\<forall>j < length ds - 1. mrdDistances st' ! j \<le> DBL_MAX"
  proof (intro allI impI)
    fix j assume "j < length ds - 1"
    with old(8) have "mrdDistances st ! j \<le> DBL_MAX" by blast
    then show "mrdDistances st' ! j \<le> DBL_MAX" using D by auto
  qed
  have "mst_invariant ds st'"
    unfolding mst_invariant_def
    using old p att cur num rnd len bound by auto
  with res num show ?thesis by blast
qed

lemma attach_all_invariant:
  assumes inp: "mst_input ds cs"
  shows "mst_invariant ds st \<Longrightarrow> numAttachedPoints st \<le> length ds
     \<Longrightarrow> \<exists>st'. attach_all ds cs st = Inr st' \<and> mst_invariant ds st'
            \<and> numAttachedPoints st' = length ds"
proof (induction "length ds - numAttachedPoints st" arbitrary: st)
  case 0
  then show ?case by simp
next
  case (Suc k)
  then have more: "numAttachedPoints st < length ds" by simp
  from attach_nearest_invariant [OF inp Suc.prems(1) more] obtain st1 where
    st1: "attach_nearest ds cs st = Inr st1" "mst_invariant ds st1"
      "numAttachedPoints st1 = numAttachedPoints st + 1" by blast
  with Suc.hyps(2) have "k = length ds - numAttachedPoints st1" by simp
  from Suc.hyps(1) [OF this st1(2)] st1(3) more obtain st' where
    "attach_all ds cs st1 = Inr st'" "mst_invariant ds st'" "numAttachedPoints st' = length ds"
    by auto
  with more st1(1) show ?case by simp
qed

lemma mst_start_invariant:
  assumes "1 \<le> length ds"
  shows "\<exists>st. mst_start ds selfEdges = Inr st \<and> mst_invariant ds st
           \<and> numAttachedPoints st = 1
           \<and> length (neighbors st) = length ds - 1 + (if selfEdges then length ds else 0)"
  using assms
  by (auto simp: mst_start_def bitSet_set_def mst_invariant_def Let_def nth_append
        nat_diff_distrib nat_add_distrib)

text \<open>
  C10: for a square matrix of \<open>N \<ge> 2\<close> points with one core distance per point, the
  attachment loop returns: in no round is \<open>nearestMRDPoint\<close> still \<open>-1\<close> when the bitset
  is written (that round would end in an error), it makes exactly \<open>N - 1\<close> rounds, and
  all \<open>N\<close> points are attached at the end.
\<close>

theorem constructMst_loop_rounds:
  assumes "mst_input distances coreDistances" "2 \<le> length distances"
  shows "\<exists>st. constructMst_loop distances coreDistances selfEdges = Inr st
            \<and> rounds st = length distances - 1
            \<and> numAttachedPoints st = length distances
            \<and> attachedPoints st = {0..<length distances}"
proof -
  from assms(2) have "1 \<le> length distances" by simp
  from mst_start_invariant [OF this] obtain st0 where
    st0: "mst_start distances selfEdges = Inr st0" "mst_invariant distances st0"
      "numAttachedPoints st0 = 1" by blast
  with assms(2) have "numAttachedPoints st0 \<le> length distances" by simp
  from attach_all_invariant [OF assms(1) st0(2) this] obtain st where
    st: "attach_all distances coreDistances st0 = Inr st" "mst_invariant distances st"
      "numAttachedPoints st = length distances" by blast
  from st(2) have fin: "finite (attachedPoints st)"
    and sub: "attachedPoints st \<subseteq> {0..<length distances}"
    and card: "card (attachedPoints st) = numAttachedPoints st"
    and rnd: "rounds st + 1 = numAttachedPoints st"
    by (auto simp: mst_invariant_def)
  from sub card st(3) have "attachedPoints st = {0..<length distances}"
    by (intro card_subset_eq) simp_all
  with st0(1) st rnd show ?thesis
    by (simp add: constructMst_loop_def)
qed


theorem constructMst_loop_rounds_witness:
  "mst_input [[0, 1, 4], [1, 0, 2], [4, 2, 0]] [1, 1, 2]
   \<and> (2::nat) \<le> length [[0, 1, 4], [1, 0, 2], [4, 2, 0::real]]
   \<and> (\<exists>st. constructMst_loop [[0, 1, 4], [1, 0, 2], [4, 2, 0]] [1, 1, 2] False = Inr st
          \<and> rounds st = 2 \<and> numAttachedPoints st = 3 \<and> attachedPoints st = {0..<3})"
proof -
  have i: "mst_input [[0, 1, 4], [1, 0, 2], [4, 2, 0]] [1, 1, 2]"
    by (simp add: mst_input_def)
  have n: "(2::nat) \<le> length [[0, 1, 4], [1, 0, 2], [4, 2, 0::real]]" by simp
  from constructMst_loop_rounds [OF i n, of False] i n show ?thesis
    by (simp add: numeral_2_eq_2 numeral_3_eq_3)
qed


lemma mutualReachabilityDistance_max:
  "mutualReachabilityDistance ds cs a b = max (max (ds ! a ! b) (cs ! a)) (cs ! b)"
  by (auto simp: mutualReachabilityDistance_def Let_def max_def)

lemma mutualReachabilityDistance_below:
  assumes "below_DBL_MAX ds cs" "a < length ds" "b < length (ds ! a)" "a < length cs"
    "b < length cs"
  shows "mutualReachabilityDistance ds cs a b < DBL_MAX"
  using assms
  by (auto simp: mutualReachabilityDistance_max below_DBL_MAX_def list_all_length)

lemma attach_nearest_tree_invariant:
  assumes inp: "mst_input ds cs" and below: "below_DBL_MAX ds cs"
    and inv: "mst_invariant ds st" and tree: "mst_tree_invariant ds cs st"
    and more: "numAttachedPoints st < length ds"
    and res: "attach_nearest ds cs st = Inr st'"
  shows "mst_tree_invariant ds cs st'"
proof -
  let ?N = "length ds"
  let ?att = "attachedPoints st"
  let ?cur = "currentPoint st"
  let ?m = "mutualReachabilityDistance ds cs"
  from attach_nearest_round [OF inp inv more] res obtain p where
    p: "p < ?N - 1" "p \<notin> ?att"
    and att: "attachedPoints st' = insert p ?att"
    and D: "\<And>j. mrdDistances st' ! j =
            (if j < ?N \<and> j \<notin> ?att \<and> ?m ?cur j < mrdDistances st ! j
             then ?m ?cur j else mrdDistances st ! j)"
    and N: "\<And>j. neighbors st' ! j =
            (if j < ?N \<and> j \<notin> ?att \<and> ?m ?cur j < mrdDistances st ! j
             then ?cur else neighbors st ! j)"
    by auto
  from inv have cur: "?cur \<in> ?att" and sub: "\<forall>j \<in> ?att. j < ?N"
    by (simp_all add: mst_invariant_def)
  from cur sub have curN: "?cur < ?N" by blast
  from tree have rec: "\<And>j. j < ?N - 1 \<Longrightarrow> mrdDistances st ! j < DBL_MAX \<Longrightarrow>
          neighbors st ! j \<in> ?att \<and> mrdDistances st ! j = ?m (neighbors st ! j) j"
    and has: "\<And>j. j \<in> ?att \<Longrightarrow> j < ?N - 1 \<Longrightarrow> mrdDistances st ! j < DBL_MAX"
    and reach: "\<And>j. j \<in> ?att \<Longrightarrow>
            (j, ?N - 1) \<in> (attached_edges ds st \<union> (attached_edges ds st)\<inverse>)\<^sup>*"
    by (simp_all add: mst_tree_invariant_def)
  have mb: "\<And>j. j < ?N \<Longrightarrow> ?m ?cur j < DBL_MAX"
    using mst_input_row [OF inp curN] curN
    by (intro mutualReachabilityDistance_below [OF below]) simp_all
  have rec': "\<And>j. j < ?N - 1 \<Longrightarrow> mrdDistances st' ! j < DBL_MAX \<Longrightarrow>
          neighbors st' ! j \<in> ?att \<and> mrdDistances st' ! j = ?m (neighbors st' ! j) j"
  proof -
    fix j assume j: "j < ?N - 1" "mrdDistances st' ! j < DBL_MAX"
    show "neighbors st' ! j \<in> ?att \<and> mrdDistances st' ! j = ?m (neighbors st' ! j) j"
    proof (cases "j < ?N \<and> j \<notin> ?att \<and> ?m ?cur j < mrdDistances st ! j")
      case True
      then show ?thesis using cur by (simp add: D N)
    next
      case False
      then have same: "mrdDistances st' ! j = mrdDistances st ! j"
        "neighbors st' ! j = neighbors st ! j" by (auto simp: D N)
      with j rec [of j] show ?thesis by simp
    qed
  qed
  have newp: "mrdDistances st' ! p < DBL_MAX"
  proof -
    from p have pN: "p < ?N" by simp
    from mb [OF this] pN p(2) show ?thesis by (auto simp: D)
  qed
  have has': "\<And>j. j \<in> insert p ?att \<Longrightarrow> j < ?N - 1 \<Longrightarrow> mrdDistances st' ! j < DBL_MAX"
  proof -
    fix j assume j: "j \<in> insert p ?att" "j < ?N - 1"
    show "mrdDistances st' ! j < DBL_MAX"
    proof (cases "j = p")
      case True
      with newp show ?thesis by simp
    next
      case False
      with j have "j \<in> ?att" by simp
      with has [OF this j(2)] show ?thesis by (simp add: D)
    qed
  qed
  have edges: "attached_edges ds st \<subseteq> attached_edges ds st'"
  proof
    fix e assume "e \<in> attached_edges ds st"
    then obtain i where i: "i \<in> ?att" "i \<noteq> ?N - 1" "e = (neighbors st ! i, i)"
      by (auto simp: attached_edges_def)
    from i(1) have "neighbors st' ! i = neighbors st ! i" by (simp add: N)
    with i have "e = (neighbors st' ! i, i)" "i \<in> insert p ?att - {?N - 1}" by simp_all
    then show "e \<in> attached_edges ds st'"
      unfolding attached_edges_def att by (rule image_eqI)
  qed
  then have mono: "(attached_edges ds st \<union> (attached_edges ds st)\<inverse>)\<^sup>*
                \<subseteq> (attached_edges ds st' \<union> (attached_edges ds st')\<inverse>)\<^sup>*"
    by (intro rtrancl_mono) auto
  have pedge: "(neighbors st' ! p, p) \<in> attached_edges ds st'"
    unfolding attached_edges_def att using p by (intro image_eqI [of _ _ p]) auto
  from rec' [OF p(1) newp] have "neighbors st' ! p \<in> ?att" by simp
  from reach [OF this] mono
  have "(neighbors st' ! p, ?N - 1) \<in> (attached_edges ds st' \<union> (attached_edges ds st')\<inverse>)\<^sup>*"
    by blast
  moreover from pedge
  have "(p, neighbors st' ! p) \<in> attached_edges ds st' \<union> (attached_edges ds st')\<inverse>"
    by simp
  ultimately have preach:
    "(p, ?N - 1) \<in> (attached_edges ds st' \<union> (attached_edges ds st')\<inverse>)\<^sup>*"
    by (rule converse_rtrancl_into_rtrancl [rotated])
  have reach': "\<And>j. j \<in> insert p ?att \<Longrightarrow>
            (j, ?N - 1) \<in> (attached_edges ds st' \<union> (attached_edges ds st')\<inverse>)\<^sup>*"
    using preach reach mono by blast
  show ?thesis
    unfolding mst_tree_invariant_def att
    using rec' has' reach' by blast
qed

lemma attach_all_tree_invariant:
  assumes inp: "mst_input ds cs" and below: "below_DBL_MAX ds cs"
  shows "mst_invariant ds st \<Longrightarrow> mst_tree_invariant ds cs st
     \<Longrightarrow> numAttachedPoints st \<le> length ds
     \<Longrightarrow> \<exists>st'. attach_all ds cs st = Inr st' \<and> mst_invariant ds st'
            \<and> mst_tree_invariant ds cs st' \<and> numAttachedPoints st' = length ds
            \<and> length (neighbors st') = length (neighbors st)"
proof (induction "length ds - numAttachedPoints st" arbitrary: st)
  case 0
  then show ?case by simp
next
  case (Suc k)
  then have more: "numAttachedPoints st < length ds" by simp
  from attach_nearest_invariant [OF inp Suc.prems(1) more] obtain st1 where
    st1: "attach_nearest ds cs st = Inr st1" "mst_invariant ds st1"
      "numAttachedPoints st1 = numAttachedPoints st + 1" by blast
  from attach_nearest_tree_invariant [OF inp below Suc.prems(1,2) more st1(1)]
  have tree1: "mst_tree_invariant ds cs st1" .
  from attach_nearest_round [OF inp Suc.prems(1) more] st1(1)
  have len1: "length (neighbors st1) = length (neighbors st)" by auto
  from st1 Suc.hyps(2) have "k = length ds - numAttachedPoints st1" by simp
  from Suc.hyps(1) [OF this st1(2) tree1] st1(3) more obtain st' where
    "attach_all ds cs st1 = Inr st'" "mst_invariant ds st'" "mst_tree_invariant ds cs st'"
    "numAttachedPoints st' = length ds" "length (neighbors st') = length (neighbors st1)"
    by auto
  with more st1(1) len1 show ?case by simp
qed

lemma nat_int_pred: "nat (int n - 1) = n - 1"
  by (cases n) auto

lemma mst_start_tree_invariant:
  assumes "mst_start ds selfEdges = Inr st"
  shows "mst_tree_invariant ds cs st"
  using assms
  by (auto simp: mst_start_def bitSet_set_def mst_tree_invariant_def Let_def nth_append
        nat_int_pred split: if_splits)

lemma add_self_edges_result:
  assumes "distinct vs"
    and "\<forall>v \<in> set vs. v < length cs \<and> off + v < length (verticesA g)
           \<and> off + v < length (verticesB g) \<and> off + v < length (edgeWeights g)"
  shows "\<exists>g'. add_self_edges cs off vs g = Inr g'
     \<and> numVertices g' = numVertices g
     \<and> length (verticesA g') = length (verticesA g)
     \<and> length (verticesB g') = length (verticesB g)
     \<and> length (edgeWeights g') = length (edgeWeights g)
     \<and> (\<forall>i. i \<notin> (\<lambda>v. off + v) ` set vs \<longrightarrow>
            verticesA g' ! i = verticesA g ! i \<and> verticesB g' ! i = verticesB g ! i
            \<and> edgeWeights g' ! i = edgeWeights g ! i)
     \<and> (\<forall>v \<in> set vs. verticesA g' ! (off + v) = v \<and> verticesB g' ! (off + v) = v
            \<and> edgeWeights g' ! (off + v) = cs ! v)"
  using assms
proof (induction vs arbitrary: g)
  case Nil
  then show ?case by simp
next
  case (Cons v vs)
  let ?g1 = "g\<lparr> verticesA := (verticesA g)[off + v := v],
                 verticesB := (verticesB g)[off + v := v],
                 edgeWeights := (edgeWeights g)[off + v := cs ! v] \<rparr>"
  from Cons.prems have d: "distinct vs" and notin: "v \<notin> set vs"
    and v: "v < length cs" "off + v < length (verticesA g)"
      "off + v < length (verticesB g)" "off + v < length (edgeWeights g)"
    and rest: "\<forall>w \<in> set vs. w < length cs \<and> off + w < length (verticesA ?g1)
           \<and> off + w < length (verticesB ?g1) \<and> off + w < length (edgeWeights ?g1)"
    by simp_all
  from Cons.IH [OF d rest] obtain g' where
    g': "add_self_edges cs off vs ?g1 = Inr g'"
      "numVertices g' = numVertices ?g1"
      "length (verticesA g') = length (verticesA ?g1)"
      "length (verticesB g') = length (verticesB ?g1)"
      "length (edgeWeights g') = length (edgeWeights ?g1)"
    and out: "\<And>i. i \<notin> (\<lambda>v. off + v) ` set vs \<Longrightarrow>
            verticesA g' ! i = verticesA ?g1 ! i \<and> verticesB g' ! i = verticesB ?g1 ! i
            \<and> edgeWeights g' ! i = edgeWeights ?g1 ! i"
    and ins: "\<And>w. w \<in> set vs \<Longrightarrow> verticesA g' ! (off + w) = w \<and> verticesB g' ! (off + w) = w
            \<and> edgeWeights g' ! (off + w) = cs ! w"
    by blast
  from v g'(1) have run: "add_self_edges cs off (v # vs) g = Inr g'" by simp
  from notin have "off + v \<notin> (\<lambda>v. off + v) ` set vs" by auto
  from out [OF this] v have atv: "verticesA g' ! (off + v) = v" "verticesB g' ! (off + v) = v"
      "edgeWeights g' ! (off + v) = cs ! v" by simp_all
  have out': "\<forall>i. i \<notin> (\<lambda>v. off + v) ` set (v # vs) \<longrightarrow>
            verticesA g' ! i = verticesA g ! i \<and> verticesB g' ! i = verticesB g ! i
            \<and> edgeWeights g' ! i = edgeWeights g ! i"
  proof (intro allI impI)
    fix i assume i: "i \<notin> (\<lambda>v. off + v) ` set (v # vs)"
    then have "i \<notin> (\<lambda>v. off + v) ` set vs" "i \<noteq> off + v" by auto
    with out [of i] show "verticesA g' ! i = verticesA g ! i \<and> verticesB g' ! i = verticesB g ! i
            \<and> edgeWeights g' ! i = edgeWeights g ! i" by simp
  qed
  from run g'(2-5) out' atv ins show ?case by auto
qed

lemma connected_through_last:
  assumes "\<forall>j < n. (j, r) \<in> (E \<union> E\<inverse>)\<^sup>*" "a < n" "b < n"
  shows "(a, b) \<in> (E \<union> E\<inverse>)\<^sup>*"
proof -
  have "sym ((E \<union> E\<inverse>)\<^sup>*)" by (intro sym_rtrancl sym_Un_converse)
  moreover from assms have "(b, r) \<in> (E \<union> E\<inverse>)\<^sup>*" by blast
  ultimately have "(r, b) \<in> (E \<union> E\<inverse>)\<^sup>*" by (rule symD)
  moreover from assms have "(a, r) \<in> (E \<union> E\<inverse>)\<^sup>*" by blast
  ultimately show ?thesis by (rule rtrancl_trans [rotated])
qed


lemma tree_edges_cong:
  assumes "numVertices g' = numVertices g"
    and "\<forall>i < numVertices g - 1. verticesA g' ! i = verticesA g ! i
           \<and> verticesB g' ! i = verticesB g ! i"
  shows "tree_edges g' = tree_edges g"
  unfolding tree_edges_def using assms by (intro image_cong) auto

lemma constructMst_loop_tree:
  assumes inp: "mst_input ds cs" and below: "below_DBL_MAX ds cs" and n: "1 \<le> length ds"
  shows "\<exists>st. constructMst_loop ds cs selfEdges = Inr st
     \<and> length (neighbors st) = length ds - 1 + (if selfEdges then length ds else 0)
     \<and> length (mrdDistances st) = length (neighbors st)
     \<and> (\<forall>i < length ds - 1. neighbors st ! i < length ds
            \<and> mrdDistances st ! i = mutualReachabilityDistance ds cs (neighbors st ! i) i)
     \<and> (\<forall>j < length ds.
            (j, length ds - 1)
              \<in> ((\<lambda>i. (neighbors st ! i, i)) ` {0..<length ds - 1}
                  \<union> ((\<lambda>i. (neighbors st ! i, i)) ` {0..<length ds - 1})\<inverse>)\<^sup>*)"
proof -
  let ?N = "length ds"
  from mst_start_invariant [OF n] obtain st0 where
    st0: "mst_start ds selfEdges = Inr st0" "mst_invariant ds st0"
      "numAttachedPoints st0 = 1"
      "length (neighbors st0) = ?N - 1 + (if selfEdges then ?N else 0)" by blast
  from st0(1) have tree0: "mst_tree_invariant ds cs st0" by (rule mst_start_tree_invariant)
  from st0(3) n have "numAttachedPoints st0 \<le> ?N" by simp
  from attach_all_tree_invariant [OF inp below st0(2) tree0 this] obtain st where
    st: "attach_all ds cs st0 = Inr st" "mst_invariant ds st" "mst_tree_invariant ds cs st"
      "numAttachedPoints st = ?N" "length (neighbors st) = length (neighbors st0)" by blast
  from st(2) have fin: "finite (attachedPoints st)"
    and sub: "attachedPoints st \<subseteq> {0..<?N}"
    and card: "card (attachedPoints st) = numAttachedPoints st"
    and lenD: "length (mrdDistances st) = length (neighbors st)"
    by (auto simp: mst_invariant_def)
  from sub card st(4) have all: "attachedPoints st = {0..<?N}"
    by (intro card_subset_eq) simp_all
  from st(3) have rec: "\<And>j. j < ?N - 1 \<Longrightarrow> mrdDistances st ! j < DBL_MAX \<Longrightarrow>
          neighbors st ! j \<in> attachedPoints st
          \<and> mrdDistances st ! j = mutualReachabilityDistance ds cs (neighbors st ! j) j"
    and has: "\<And>j. j \<in> attachedPoints st \<Longrightarrow> j < ?N - 1 \<Longrightarrow> mrdDistances st ! j < DBL_MAX"
    and reach: "\<And>j. j \<in> attachedPoints st \<Longrightarrow>
            (j, ?N - 1) \<in> (attached_edges ds st \<union> (attached_edges ds st)\<inverse>)\<^sup>*"
    by (simp_all add: mst_tree_invariant_def)
  have edges: "\<forall>i < ?N - 1. neighbors st ! i < ?N
            \<and> mrdDistances st ! i = mutualReachabilityDistance ds cs (neighbors st ! i) i"
  proof (intro allI impI)
    fix i assume i: "i < ?N - 1"
    then have "i \<in> attachedPoints st" by (simp add: all)
    from has [OF this i] have "mrdDistances st ! i < DBL_MAX" .
    from rec [OF i this] show "neighbors st ! i < ?N
            \<and> mrdDistances st ! i = mutualReachabilityDistance ds cs (neighbors st ! i) i"
      by (simp add: all)
  qed
  have "{0..<?N} - {?N - 1} = {0..<?N - 1}" using n by auto
  then have E: "attached_edges ds st = (\<lambda>i. (neighbors st ! i, i)) ` {0..<?N - 1}"
    by (simp add: attached_edges_def all)
  have conn: "\<forall>j < ?N. (j, ?N - 1)
              \<in> ((\<lambda>i. (neighbors st ! i, i)) ` {0..<?N - 1}
                  \<union> ((\<lambda>i. (neighbors st ! i, i)) ` {0..<?N - 1})\<inverse>)\<^sup>*"
    using reach unfolding E all by simp
  from st0(1) st(1) have "constructMst_loop ds cs selfEdges = Inr st"
    by (simp add: constructMst_loop_def)
  with st(5) st0(4) lenD edges conn show ?thesis by simp
qed

text \<open>
  C4, amended: for a square matrix of \<open>N \<ge> 2\<close> points with one core distance per point,
  all entries below \<open>DBL_MAX\<close>, \<^verbatim>\<open>constructMst\<close> returns a graph on \<open>N\<close> vertices with
  \<open>N - 1\<close> tree edges, followed by \<open>N\<close> self edges when they are requested; tree edge
  \<open>i\<close> joins a point to point \<open>i\<close> and its weight is the maximum of the distance from
  endpoint A to endpoint B and the two core distances; the tree edges connect all points;
  and the self edge of \<open>v\<close> is \<open>(v, v)\<close> with the core distance of \<open>v\<close> as weight.
\<close>

theorem constructMst_spanning_tree:
  assumes "mst_input distances coreDistances" "below_DBL_MAX distances coreDistances"
    and "2 \<le> length distances"
  shows "\<exists>g. constructMst distances coreDistances selfEdges = Inr g
     \<and> numVertices g = length distances
     \<and> length (verticesA g) = length distances - 1 + (if selfEdges then length distances else 0)
     \<and> length (verticesB g) = length (verticesA g)
     \<and> length (edgeWeights g) = length (verticesA g)
     \<and> (\<forall>i < length distances - 1.
            verticesA g ! i < length distances \<and> verticesB g ! i = i
            \<and> edgeWeights g ! i =
                max (max (distances ! (verticesA g ! i) ! (verticesB g ! i))
                         (coreDistances ! (verticesA g ! i)))
                    (coreDistances ! (verticesB g ! i)))
     \<and> connects_all g
     \<and> (selfEdges \<longrightarrow>
          (\<forall>v < length distances.
              verticesA g ! (length distances - 1 + v) = v
              \<and> verticesB g ! (length distances - 1 + v) = v
              \<and> edgeWeights g ! (length distances - 1 + v) = coreDistances ! v))"
proof -
  let ?N = "length distances"
  let ?cap = "if selfEdges then ?N else 0"
  from assms(3) have n: "1 \<le> ?N" by simp
  from constructMst_loop_tree [OF assms(1,2) n, of selfEdges] obtain st where
    run: "constructMst_loop distances coreDistances selfEdges = Inr st"
    and lenN: "length (neighbors st) = ?N - 1 + ?cap"
    and lenD: "length (mrdDistances st) = length (neighbors st)"
    and edges: "\<And>i. i < ?N - 1 \<Longrightarrow> neighbors st ! i < ?N
            \<and> mrdDistances st ! i =
                mutualReachabilityDistance distances coreDistances (neighbors st ! i) i"
    and conn: "\<forall>j < ?N. (j, ?N - 1)
              \<in> ((\<lambda>i. (neighbors st ! i, i)) ` {0..<?N - 1}
                  \<union> ((\<lambda>i. (neighbors st ! i, i)) ` {0..<?N - 1})\<inverse>)\<^sup>*"
    by blast
  let ?g0 = "\<lparr> numVertices = ?N, verticesA = neighbors st,
               verticesB = [0..<?N - 1] @ replicate ?cap 0, edgeWeights = mrdDistances st \<rparr>"
  have B0: "\<And>i. i < ?N - 1 \<Longrightarrow> verticesB ?g0 ! i = i"
    by (simp add: nth_append)
  have te0: "tree_edges ?g0 = (\<lambda>i. (neighbors st ! i, i)) ` {0..<?N - 1}"
    unfolding tree_edges_def by (intro image_cong) (auto simp: nth_append)
  have tree: "numVertices g = ?N
     \<and> (\<forall>i < ?N - 1.
            verticesA g ! i < ?N \<and> verticesB g ! i = i
            \<and> edgeWeights g ! i =
                max (max (distances ! (verticesA g ! i) ! (verticesB g ! i))
                         (coreDistances ! (verticesA g ! i)))
                    (coreDistances ! (verticesB g ! i)))
     \<and> connects_all g"
    if same: "numVertices g = ?N"
      "\<forall>i < ?N - 1. verticesA g ! i = verticesA ?g0 ! i \<and> verticesB g ! i = verticesB ?g0 ! i
          \<and> edgeWeights g ! i = edgeWeights ?g0 ! i" for g
  proof -
    have "tree_edges g = tree_edges ?g0"
      using same by (intro tree_edges_cong) simp_all
    with te0 have te: "tree_edges g = (\<lambda>i. (neighbors st ! i, i)) ` {0..<?N - 1}" by simp
    have "connects_all g"
      unfolding connects_all_def te same(1)
      using conn by (auto intro: connected_through_last)
    moreover have "\<forall>i < ?N - 1.
            verticesA g ! i < ?N \<and> verticesB g ! i = i
            \<and> edgeWeights g ! i =
                max (max (distances ! (verticesA g ! i) ! (verticesB g ! i))
                         (coreDistances ! (verticesA g ! i)))
                    (coreDistances ! (verticesB g ! i))"
    proof (intro allI impI)
      fix i assume i: "i < ?N - 1"
      with same(2) B0 [OF i] have "verticesA g ! i = neighbors st ! i" "verticesB g ! i = i"
        "edgeWeights g ! i = mrdDistances st ! i" by simp_all
      with edges [OF i] show "verticesA g ! i < ?N \<and> verticesB g ! i = i
            \<and> edgeWeights g ! i =
                max (max (distances ! (verticesA g ! i) ! (verticesB g ! i))
                         (coreDistances ! (verticesA g ! i)))
                    (coreDistances ! (verticesB g ! i))"
        by (simp add: mutualReachabilityDistance_max)
    qed
    ultimately show ?thesis using same(1) by blast
  qed
  show ?thesis
  proof (cases selfEdges)
    case False
    with run have res: "constructMst distances coreDistances selfEdges = Inr ?g0"
      by (simp add: constructMst_def Let_def)
    have "numVertices ?g0 = ?N"
      "\<forall>i < ?N - 1. verticesA ?g0 ! i = verticesA ?g0 ! i
          \<and> verticesB ?g0 ! i = verticesB ?g0 ! i \<and> edgeWeights ?g0 ! i = edgeWeights ?g0 ! i"
      by simp_all
    from tree [OF this] res False lenN lenD show ?thesis
      by (intro exI [of _ ?g0]) simp
  next
    case True
    from assms(1) have lencs: "length coreDistances = ?N" by (simp add: mst_input_def)
    have "\<forall>v \<in> set [0..<?N]. v < length coreDistances
           \<and> ?N - 1 + v < length (verticesA ?g0)
           \<and> ?N - 1 + v < length (verticesB ?g0) \<and> ?N - 1 + v < length (edgeWeights ?g0)"
      using True lenN lenD lencs n by auto
    from add_self_edges_result [OF distinct_upt this] obtain g where
      g: "add_self_edges coreDistances (?N - 1) [0..<?N] ?g0 = Inr g"
        "numVertices g = numVertices ?g0"
        "length (verticesA g) = length (verticesA ?g0)"
        "length (verticesB g) = length (verticesB ?g0)"
        "length (edgeWeights g) = length (edgeWeights ?g0)"
      and out: "\<And>i. i \<notin> (\<lambda>v. ?N - 1 + v) ` set [0..<?N] \<Longrightarrow>
            verticesA g ! i = verticesA ?g0 ! i \<and> verticesB g ! i = verticesB ?g0 ! i
            \<and> edgeWeights g ! i = edgeWeights ?g0 ! i"
      and ins: "\<And>v. v \<in> set [0..<?N] \<Longrightarrow> verticesA g ! (?N - 1 + v) = v
            \<and> verticesB g ! (?N - 1 + v) = v
            \<and> edgeWeights g ! (?N - 1 + v) = coreDistances ! v"
      by blast
    from run True g(1) have res: "constructMst distances coreDistances selfEdges = Inr g"
      by (simp add: constructMst_def Let_def)
    have same: "\<forall>i < ?N - 1. verticesA g ! i = verticesA ?g0 ! i
          \<and> verticesB g ! i = verticesB ?g0 ! i \<and> edgeWeights g ! i = edgeWeights ?g0 ! i"
    proof (intro allI impI)
      fix i assume "i < ?N - 1"
      then have "i \<notin> (\<lambda>v. ?N - 1 + v) ` set [0..<?N]" by auto
      then show "verticesA g ! i = verticesA ?g0 ! i
          \<and> verticesB g ! i = verticesB ?g0 ! i \<and> edgeWeights g ! i = edgeWeights ?g0 ! i"
        by (rule out)
    qed
    from g(2) have nv: "numVertices g = ?N" by simp
    have self: "\<forall>v < ?N. verticesA g ! (?N - 1 + v) = v
              \<and> verticesB g ! (?N - 1 + v) = v
              \<and> edgeWeights g ! (?N - 1 + v) = coreDistances ! v"
      using ins by simp
    from tree [OF nv same] res True g(3-5) lenN lenD self show ?thesis
      by (intro exI [of _ g]) simp
  qed
qed


theorem constructMst_spanning_tree_witness:
  "mst_input [[0, 1, 4], [1, 0, 2], [4, 2, 0]] [1, 1, 2]
   \<and> below_DBL_MAX [[0, 1, 4], [1, 0, 2], [4, 2, 0]] [1, 1, 2]
   \<and> (2::nat) \<le> length [[0, 1, 4], [1, 0, 2], [4, 2, 0::real]]
   \<and> constructMst [[0, 1, 4], [1, 0, 2], [4, 2, 0]] [1, 1, 2] True
        = Inr \<lparr> numVertices = 3, verticesA = [1, 2, 0, 1, 2], verticesB = [0, 1, 0, 1, 2],
                edgeWeights = [1, 2, 1, 1, 2] \<rparr>
   \<and> connects_all \<lparr> numVertices = 3, verticesA = [1, 2, 0, 1, 2], verticesB = [0, 1, 0, 1, 2],
                edgeWeights = [1, 2, 1, 1, 2] \<rparr>"
proof -
  have i: "mst_input [[0, 1, 4], [1, 0, 2], [4, 2, 0]] [1, 1, 2]"
    by (simp add: mst_input_def)
  have b: "below_DBL_MAX [[0, 1, 4], [1, 0, 2], [4, 2, 0]] [1, 1, 2]"
    by (simp add: below_DBL_MAX_def DBL_MAX_def)
  have n: "(2::nat) \<le> length [[0, 1, 4], [1, 0, 2], [4, 2, 0::real]]" by simp
  have run: "constructMst [[0, 1, 4], [1, 0, 2], [4, 2, 0]] [1, 1, 2] True
        = Inr \<lparr> numVertices = 3, verticesA = [1, 2, 0, 1, 2], verticesB = [0, 1, 0, 1, 2],
                edgeWeights = [1, 2, 1, 1, 2] \<rparr>"
    by (simp add: constructMst_def constructMst_loop_def mst_start_def bitSet_set_def
          attach_nearest_def update_neighbor_def mutualReachabilityDistance_def DBL_MAX_def
          Let_def upt_rec eval_nat_numeral)
  from constructMst_spanning_tree [OF i b n, of True] run
  have "connects_all \<lparr> numVertices = 3, verticesA = [1, 2, 0, 1, 2],
          verticesB = [0, 1, 0, 1, 2], edgeWeights = [1, 2, 1, 1, 2] \<rparr>"
    by auto
  with i b n run show ?thesis by blast
qed

lemma DBL_MAX_positive: "0 < DBL_MAX"
proof -
  have "(2::real) ^ 971 < 2 ^ 1024" by (rule power_strict_increasing) simp_all
  then show ?thesis by (simp add: DBL_MAX_def)
qed

lemma rtrancl_within_Id: "(a, b) \<in> r\<^sup>* \<Longrightarrow> r \<subseteq> Id \<Longrightarrow> a = b"
  by (induction rule: rtrancl_induct) auto

text \<open>
  C4 as stated fails for the two points at distance \<open>DBL_MAX\<close> with core distances 0 (a
  square matrix of 2 points with matching core distances): the recorded distance of point
  0 starts at \<open>DBL_MAX\<close>, the test \<^verbatim>\<open>mutualReachabiltiyDistance < nearestMRDDistances[neighbor]\<close>
  fails, and no neighbour is recorded. The one tree edge is \<open>(0, 0)\<close>, which leaves point 1
  apart, and its weight \<open>DBL_MAX\<close> is not the mutual reachability distance of its
  endpoints.
\<close>

theorem constructMst_DBL_MAX_counterexample:
  "mst_input [[0, DBL_MAX], [DBL_MAX, 0]] [0, 0]
   \<and> (2::nat) \<le> length [[0, DBL_MAX], [DBL_MAX, 0]]
   \<and> constructMst [[0, DBL_MAX], [DBL_MAX, 0]] [0, 0] False
        = Inr \<lparr> numVertices = 2, verticesA = [0], verticesB = [0], edgeWeights = [DBL_MAX] \<rparr>
   \<and> \<not> connects_all
          \<lparr> numVertices = 2, verticesA = [0], verticesB = [0], edgeWeights = [DBL_MAX] \<rparr>
   \<and> DBL_MAX \<noteq> max (max ([[0, DBL_MAX], [DBL_MAX, 0]] ! 0 ! 0) ([0, 0] ! 0)) ([0, 0] ! 0)"
proof -
  let ?g = "\<lparr> numVertices = 2, verticesA = [0], verticesB = [0], edgeWeights = [DBL_MAX] \<rparr>"
  have i: "mst_input [[0, DBL_MAX], [DBL_MAX, 0]] [0, 0]"
    by (simp add: mst_input_def)
  have run: "constructMst [[0, DBL_MAX], [DBL_MAX, 0]] [0, 0] False = Inr ?g"
    by (simp add: constructMst_def constructMst_loop_def mst_start_def bitSet_set_def
          attach_nearest_def update_neighbor_def mutualReachabilityDistance_def
          Let_def upt_rec numeral_2_eq_2 DBL_MAX_nonneg)
  have te: "tree_edges ?g = {(0, 0)}"
    by (simp add: tree_edges_def)
  have apart: "\<not> connects_all ?g"
  proof
    assume "connects_all ?g"
    then have "(0::nat, 1::nat) \<in> (tree_edges ?g \<union> (tree_edges ?g)\<inverse>)\<^sup>*"
      by (simp add: connects_all_def)
    then have "(0::nat) = 1"
      by (rule rtrancl_within_Id) (auto simp: te)
    then show False by simp
  qed
  from DBL_MAX_positive
  have w: "DBL_MAX \<noteq> max (max ([[0, DBL_MAX], [DBL_MAX, 0]] ! 0 ! 0) ([0, 0] ! 0)) ([0, 0] ! 0)"
    by simp
  from i run apart w show ?thesis by simp
qed

text \<open>
  C5, amended: in every round of the attachment loop the point attached is an unattached
  point whose recorded distance (after the round's updates) is the smallest among the
  unattached points, and of the unattached points with that smallest distance it is the one
  with the highest index: the scan ascends and replaces its candidate on \<^verbatim>\<open><=\<close>.
\<close>

theorem attach_nearest_highest_index_wins:
  assumes "mst_input distances coreDistances" "mst_invariant distances st"
    and "numAttachedPoints st < length distances"
  shows "\<exists>st'. attach_nearest distances coreDistances st = Inr st'
     \<and> currentPoint st' < length distances
     \<and> currentPoint st' \<notin> attachedPoints st
     \<and> attachedPoints st' = insert (currentPoint st') (attachedPoints st)
     \<and> (\<forall>j < length distances. j \<notin> attachedPoints st \<longrightarrow>
            mrdDistances st' ! currentPoint st' \<le> mrdDistances st' ! j)
     \<and> (\<forall>j < length distances.
            j \<notin> attachedPoints st \<and> mrdDistances st' ! j = mrdDistances st' ! currentPoint st'
            \<longrightarrow> j \<le> currentPoint st')"
proof -
  from attach_nearest_round [OF assms] obtain p st' where
    "attach_nearest distances coreDistances st = Inr st'"
    "p < length distances - 1" "p \<notin> attachedPoints st"
    "attachedPoints st' = insert p (attachedPoints st)"
    "currentPoint st' = p"
    "\<forall>j < length distances. j \<notin> attachedPoints st \<longrightarrow>
        mrdDistances st' ! p \<le> mrdDistances st' ! j"
    "\<forall>j < length distances. j \<notin> attachedPoints st \<and> mrdDistances st' ! j = mrdDistances st' ! p
        \<longrightarrow> j \<le> p"
    by blast
  then show ?thesis by (intro exI [of _ st']) simp
qed

theorem attach_nearest_highest_index_wins_witness:
  "mst_input [[0, 1, 1], [1, 0, 1], [1, 1, 0]] [0, 0, 0]
   \<and> mst_invariant [[0, 1, 1], [1, 0, 1], [1, 1, 0]]
        \<lparr> neighbors = [0, 0], mrdDistances = [DBL_MAX, DBL_MAX], attachedPoints = {2},
          currentPoint = 2, numAttachedPoints = 1, rounds = 0 \<rparr>
   \<and> (1::nat) < length [[0, 1, 1], [1, 0, 1], [1, 1, 0::real]]
   \<and> (\<exists>st'. attach_nearest [[0, 1, 1], [1, 0, 1], [1, 1, 0]] [0, 0, 0]
               \<lparr> neighbors = [0, 0], mrdDistances = [DBL_MAX, DBL_MAX], attachedPoints = {2},
                 currentPoint = 2, numAttachedPoints = 1, rounds = 0 \<rparr> = Inr st'
          \<and> currentPoint st' \<notin> {2::nat}
          \<and> attachedPoints st' = insert (currentPoint st') {2}
          \<and> mrdDistances st' ! currentPoint st' \<le> mrdDistances st' ! 0
          \<and> mrdDistances st' ! currentPoint st' \<le> mrdDistances st' ! 1)"
proof -
  let ?d = "[[0, 1, 1], [1, 0, 1], [1, 1, 0::real]]"
  let ?st = "\<lparr> neighbors = [0, 0], mrdDistances = [DBL_MAX, DBL_MAX], attachedPoints = {2},
          currentPoint = 2, numAttachedPoints = 1, rounds = 0 \<rparr>"
  have i: "mst_input ?d [0, 0, 0]" by (simp add: mst_input_def)
  have start: "mst_start ?d False = Inr ?st"
    by (simp add: mst_start_def bitSet_set_def numeral_2_eq_2)
  have "1 \<le> length ?d" by simp
  from mst_start_invariant [OF this, of False] start
  have v: "mst_invariant ?d ?st" by simp
  have n: "numAttachedPoints ?st < length ?d" by simp
  from attach_nearest_highest_index_wins [OF i v n] obtain st' where
    st': "attach_nearest ?d [0, 0, 0] ?st = Inr st'"
      "currentPoint st' \<notin> attachedPoints ?st"
      "attachedPoints st' = insert (currentPoint st') (attachedPoints ?st)"
      "\<forall>j < length ?d. j \<notin> attachedPoints ?st \<longrightarrow>
            mrdDistances st' ! currentPoint st' \<le> mrdDistances st' ! j"
    by blast
  from st'(4) have "mrdDistances st' ! currentPoint st' \<le> mrdDistances st' ! 0"
    "mrdDistances st' ! currentPoint st' \<le> mrdDistances st' ! 1" by simp_all
  with st'(1,2,3) have "\<exists>st'. attach_nearest ?d [0, 0, 0] ?st = Inr st'
          \<and> currentPoint st' \<notin> {2::nat}
          \<and> attachedPoints st' = insert (currentPoint st') {2}
          \<and> mrdDistances st' ! currentPoint st' \<le> mrdDistances st' ! 0
          \<and> mrdDistances st' ! currentPoint st' \<le> mrdDistances st' ! 1"
    by (intro exI [of _ st']) simp
  with i v show ?thesis by simp
qed

text \<open>
  C5 as stated fails for three points at distance 1 from each other with core distances 0:
  in the first round the unattached points 0 and 1 both get the recorded distance 1, the
  smallest there is, and the point attached is 1, not the lower index 0.
\<close>

theorem attach_nearest_lowest_index_counterexample:
  "mst_start [[0, 1, 1], [1, 0, 1], [1, 1, 0]] False
     = Inr \<lparr> neighbors = [0, 0], mrdDistances = [DBL_MAX, DBL_MAX], attachedPoints = {2},
             currentPoint = 2, numAttachedPoints = 1, rounds = 0 \<rparr>
   \<and> attach_nearest [[0, 1, 1], [1, 0, 1], [1, 1, 0]] [0, 0, 0]
         \<lparr> neighbors = [0, 0], mrdDistances = [DBL_MAX, DBL_MAX], attachedPoints = {2},
           currentPoint = 2, numAttachedPoints = 1, rounds = 0 \<rparr>
     = Inr \<lparr> neighbors = [2, 2], mrdDistances = [1, 1], attachedPoints = {1, 2},
             currentPoint = 1, numAttachedPoints = 2, rounds = 1 \<rparr>"
  by (simp add: mst_start_def bitSet_set_def attach_nearest_def update_neighbor_def
        mutualReachabilityDistance_def DBL_MAX_def Let_def upt_rec numeral_2_eq_2
        numeral_3_eq_3)

end
